theory Spec2Isabelle
  imports Main "HOL-Library.Word"
begin

unbundle bit_operations_syntax

section \<open>Pipeline stages\<close>

text \<open>
  \<^verbatim>\<open>enum HshStage : int { HshNoStage = -1, HshHostStage = 0, HshVertexStage,
  HshControlStage, HshEvaluationStage, HshGeometryStage, HshFragmentStage, HshMaxStage }\<close>.
  The enumerators are kept as constructors; \<open>stage_int\<close> is the underlying integer, which
  is what the source compares (\<open><\<close>, \<open>std::max\<close>), indexes arrays with and shifts by.
\<close>

datatype HshStage =
    HshNoStage
  | HshHostStage
  | HshVertexStage
  | HshControlStage
  | HshEvaluationStage
  | HshGeometryStage
  | HshFragmentStage

fun stage_int :: "HshStage \<Rightarrow> int" where
  "stage_int HshNoStage = -1"
| "stage_int HshHostStage = 0"
| "stage_int HshVertexStage = 1"
| "stage_int HshControlStage = 2"
| "stage_int HshEvaluationStage = 3"
| "stage_int HshGeometryStage = 4"
| "stage_int HshFragmentStage = 5"

definition HshMaxStage :: int where
  "HshMaxStage = 6"

text \<open>The cast \<open>HshStage(D)\<close> of a loop counter; only used for \<open>0 \<le> D < HshMaxStage\<close>.\<close>

definition HshStage_of :: "int \<Rightarrow> HshStage" where
  "HshStage_of d =
     (if d = 0 then HshHostStage
      else if d = 1 then HshVertexStage
      else if d = 2 then HshControlStage
      else if d = 3 then HshEvaluationStage
      else if d = 4 then HshGeometryStage
      else if d = 5 then HshFragmentStage
      else HshNoStage)"

text \<open>
  \<open>1u << Stage\<close> on \<open>unsigned\<close> (32 bits). Shifting by a negative count is undefined in
  C++, so every caller below treats \<open>HshNoStage\<close> separately and this function is only
  applied to the stages \<open>0..5\<close>.
\<close>

definition stage_bit :: "HshStage \<Rightarrow> 32 word" where
  "stage_bit Stage = push_bit (nat (stage_int Stage)) 1"

text \<open>\<open>std::find_if\<close>: the position of the first element satisfying the predicate,
  \<open>None\<close> for the end iterator.\<close>

primrec find_if :: "('a \<Rightarrow> bool) \<Rightarrow> 'a list \<Rightarrow> nat option" where
  "find_if P [] = None"
| "find_if P (x # xs) =
     (if P x then Some 0
      else (case find_if P xs of None \<Rightarrow> None | Some i \<Rightarrow> Some (Suc i)))"

section \<open>Types, declarations and expressions of the input program\<close>

datatype TextureName =
    texture1d | texture1d_array | texture2d | render_texture2d
  | texture2d_array | texture3d | texturecube | texturecube_array

datatype TextureElem = T_float | T_int | T_uint

datatype VectorName = float2 | float3 | float4 | int2 | int3 | int4 | uint2 | uint3 | uint4

datatype MatrixName = float3x3 | float4x4

text \<open>\<open>enum HshBuiltinType\<close>: \<open>HBT_None\<close> and one enumerator per vector, matrix and
  texture type of BuiltinTypes.def (three per texture type).\<close>

datatype HshBuiltinType =
    HBT_None
  | HBT_Vector VectorName
  | HBT_Matrix MatrixName
  | HBT_Texture TextureName TextureElem



text \<open>
  A \<open>QualType\<close> is represented by what the generator asks of it:
  \<open>Builtins.identifyBuiltinType(T)\<close>, \<open>T->isIntegralOrEnumerationType()\<close>,
  \<open>Context.getIntWidth(T)\<close>, whether it is the builtin \<open>float\<close> or \<open>double\<close>, and the
  fields of its record declaration when \<open>T->isStructureOrClassType()\<close> (\<open>None\<close> otherwise).
  Reference and qualifier stripping are not modelled: a type stands for its unqualified
  non-reference type.
\<close>

datatype QualType = QualType
  (identifyBuiltinType: HshBuiltinType)
  (isIntegralOrEnumerationType: bool)
  (getIntWidth: nat)
  (isFloatOrDouble: bool)
  (getAsCXXRecordDecl: "FieldDecl list option")
and FieldDecl = FieldDecl (fd_addr: nat) (fd_name: string) (fd_type: QualType)

definition isStructureOrClassType :: "QualType \<Rightarrow> bool" where
  "isStructureOrClassType T \<longleftrightarrow> getAsCXXRecordDecl T \<noteq> None"

text \<open>
  The attributes a lambda parameter can carry. The slot attributes hold the result of
  evaluating their index expression as an integer constant (\<open>None\<close> when it is not one,
  in which case the \<open>APSInt\<close> the source passes in keeps its initial value zero).
\<close>

datatype ParmAttr =
    HshPositionAttr
  | HshColorTargetAttr "int option"
  | HshVertexBufferAttr "int option"
  | HshInstanceBufferAttr "int option"
  | HshVertexTextureAttr "int option"
  | HshFragmentTextureAttr "int option"

datatype AttrKind =
    PositionAttr | ColorTargetAttr | VertexBufferAttr | InstanceBufferAttr
  | VertexTextureAttr | FragmentTextureAttr

fun attr_kind :: "ParmAttr \<Rightarrow> AttrKind" where
  "attr_kind HshPositionAttr = PositionAttr"
| "attr_kind (HshColorTargetAttr i) = ColorTargetAttr"
| "attr_kind (HshVertexBufferAttr i) = VertexBufferAttr"
| "attr_kind (HshInstanceBufferAttr i) = InstanceBufferAttr"
| "attr_kind (HshVertexTextureAttr i) = VertexTextureAttr"
| "attr_kind (HshFragmentTextureAttr i) = FragmentTextureAttr"

fun getIndex :: "ParmAttr \<Rightarrow> int option" where
  "getIndex HshPositionAttr = None"
| "getIndex (HshColorTargetAttr i) = i"
| "getIndex (HshVertexBufferAttr i) = i"
| "getIndex (HshInstanceBufferAttr i) = i"
| "getIndex (HshVertexTextureAttr i) = i"
| "getIndex (HshFragmentTextureAttr i) = i"

text \<open>Declarations are identified by their address; the rest is the content read from
  them.\<close>

datatype ParmVarDecl = ParmVarDecl
  (pvd_addr: nat) (pvd_name: string) (pvd_type: QualType) (pvd_attrs: "ParmAttr list")

datatype VarDecl = VarDecl (vd_addr: nat) (vd_name: string) (vd_type: QualType)

datatype Decl = ParmVar ParmVarDecl | Var VarDecl | Function string

text \<open>\<open>PVD->getAttr<A>()\<close>: the first attribute of the kind, if any.\<close>

definition getAttr :: "AttrKind \<Rightarrow> ParmVarDecl \<Rightarrow> ParmAttr option" where
  "getAttr k D = List.find (\<lambda>a. attr_kind a = k) (pvd_attrs D)"


datatype BinaryOperatorKind =
    BO_PtrMemD | BO_PtrMemI | BO_Mul | BO_Div | BO_Rem | BO_Add | BO_Sub
  | BO_Shl | BO_Shr | BO_Cmp | BO_LT | BO_GT | BO_LE | BO_GE | BO_EQ | BO_NE
  | BO_And | BO_Xor | BO_Or | BO_LAnd | BO_LOr
  | BO_Assign | BO_MulAssign | BO_DivAssign | BO_RemAssign | BO_AddAssign
  | BO_SubAssign | BO_ShlAssign | BO_ShrAssign | BO_AndAssign | BO_XorAssign
  | BO_OrAssign | BO_Comma

datatype OverloadedOperatorKind =
    OO_New | OO_Delete | OO_Array_New | OO_Array_Delete
  | OO_Plus | OO_Minus | OO_Star | OO_Slash | OO_Percent | OO_Caret | OO_Amp
  | OO_Pipe | OO_Tilde | OO_Exclaim | OO_Equal | OO_Less | OO_Greater
  | OO_PlusEqual | OO_MinusEqual | OO_StarEqual | OO_SlashEqual | OO_PercentEqual
  | OO_CaretEqual | OO_AmpEqual | OO_PipeEqual | OO_LessLess | OO_GreaterGreater
  | OO_LessLessEqual | OO_GreaterGreaterEqual | OO_EqualEqual | OO_ExclaimEqual
  | OO_LessEqual | OO_GreaterEqual | OO_Spaceship | OO_AmpAmp | OO_PipePipe
  | OO_PlusPlus | OO_MinusMinus | OO_Comma | OO_ArrowStar | OO_Arrow | OO_Call
  | OO_Subscript | OO_Conditional | OO_Coawait

datatype UnaryOperatorKind =
    UO_PostInc | UO_PostDec | UO_PreInc | UO_PreDec | UO_AddrOf | UO_Deref
  | UO_Plus | UO_Minus | UO_Not | UO_LNot | UO_Real | UO_Imag | UO_Extension
  | UO_Coawait

text \<open>The expression classes that \<open>StagesBuilder\<close> looks through (its "ignores"): each
  has one sub-expression that stands for it.\<close>

datatype WrapperClass =
    UnaryOperatorClass UnaryOperatorKind
  | GenericSelectionExprClass
  | ChooseExprClass
  | ConstantExprClass
  | ImplicitCastExprClass
  | ExprWithCleanupsClass
  | MaterializeTemporaryExprClass
  | SubstNonTypeTemplateParmExprClass

text \<open>
  An \<open>Expr *\<close> is the address of the node together with the tree found there: its type
  (\<open>getType()\<close>) and its class with the operands. Pointer comparison (\<open>E1 == E2\<close>) is
  comparison of the addresses. Value kinds and source locations are not part of the model.
\<close>

datatype Expr = MkExpr (expr_addr: nat) (getType: QualType) (node: ExprNode)
and ExprNode =
    IntegerLiteral int
  | FloatingLiteral int int
  | DeclRefExpr Decl
  | MemberExpr Expr FieldDecl
  | Wrapper WrapperClass Expr
  | BinaryOperator BinaryOperatorKind Expr Expr
  | CallExpr Expr "Expr list"
  | CXXMemberCallExpr Expr string "Expr list"
  | CXXOperatorCallExpr OverloadedOperatorKind "Expr list"
  | CXXConstructExpr "Expr list"
  | InitListExpr "Expr list"

text \<open>
  The statements kept in the per-stage lists: expressions (the assignments the builder
  synthesises and the traced expressions) and declaration statements of a single
  variable with its initialiser.
\<close>

datatype Stmt = ExprStmt Expr | DeclStmt nat VarDecl "Expr option"

fun stmt_addr :: "Stmt \<Rightarrow> nat" where
  "stmt_addr (ExprStmt E) = expr_addr E"
| "stmt_addr (DeclStmt a VD Init) = a"

text \<open>\<open>isa<DeclStmt>(S)\<close>\<close>

fun isa_DeclStmt :: "Stmt \<Rightarrow> bool" where
  "isa_DeclStmt (DeclStmt a VD Init) = True"
| "isa_DeclStmt (ExprStmt E) = False"

section \<open>Diagnostics and allocation\<close>

datatype DiagLevel = Error | Warning | Note

datatype DiagMsg =
    err_unsupported_stmt
  | err_nonconstexpr_sampler
  | err_bad_sampler_struct_format
  | err_sampler_overflow
  | err_bad_vertex_position_type
  | err_bad_color_target_type
  | err_bad_vertex_buffer_type
  | err_vertex_buffer_out_of_range
  | err_vertex_buffer_duplicate
  | note_previous_buffer_index
  | err_bad_texture_type
  | err_texture_out_of_range
  | err_texture_duplicate
  | note_previous_texture_index
  | err_bad_integer_type
  | err_bad_record_type
  | err_color_target_out_of_range
  | diag_other string

text \<open>A diagnostic: its level, its message, and the address of the node it is reported
  at (\<open>S->getBeginLoc()\<close> in \<open>ReportCustom\<close>).\<close>

datatype Diag = Diag (level: DiagLevel) (msg: DiagMsg) (loc: nat)

text \<open>
  The part of \<open>ASTContext\<close> the generator changes: the diagnostics reported so far and the
  allocator behind \<open>new (Context)\<close> and the \<open>Create\<close> functions, which hands out addresses
  that were never used before.
\<close>

record ASTContext =
  Diags :: "Diag list"
  NextAddr :: nat

definition ReportCustom :: "nat \<Rightarrow> DiagMsg \<Rightarrow> DiagLevel \<Rightarrow> ASTContext \<Rightarrow> ASTContext" where
  "ReportCustom S FormatString lvl ctx = ctx\<lparr>Diags := Diags ctx @ [Diag lvl FormatString S]\<rparr>"


definition alloc :: "ASTContext \<Rightarrow> nat \<times> ASTContext" where
  "alloc ctx = (NextAddr ctx, ctx\<lparr>NextAddr := Suc (NextAddr ctx)\<rparr>)"

section \<open>Interface records\<close>

fun HshStageToString :: "HshStage \<Rightarrow> string" where
  "HshStageToString HshHostStage = ''host''"
| "HshStageToString HshVertexStage = ''vertex''"
| "HshStageToString HshControlStage = ''control''"
| "HshStageToString HshEvaluationStage = ''evaluation''"
| "HshStageToString HshGeometryStage = ''geometry''"
| "HshStageToString HshFragmentStage = ''fragment''"
| "HshStageToString HshNoStage = ''none''"

text \<open>Decimal printing of an unsigned number, as \<open>raw_ostream << size_t\<close> does.\<close>

definition digit_char :: "nat \<Rightarrow> char" where
  "digit_char d = char_of (48 + d)"

function string_of_nat :: "nat \<Rightarrow> string" where
  "string_of_nat n =
     (if n < 10 then [digit_char n] else string_of_nat (n div 10) @ [digit_char (n mod 10)])"
  by pat_completeness auto
termination
  by (relation "measure id") auto

declare string_of_nat.simps [simp del]

datatype CXXRecordDecl = CXXRecordDecl (rd_addr: nat) (rd_name: string) (rd_decls: "FieldDecl list")

text \<open>The type of a freshly created interface struct, as the record type of the producer
  and consumer variables.\<close>

definition record_type :: QualType where
  "record_type = QualType HBT_None False 0 False (Some [])"

record InterfaceRecord =
  Record :: "CXXRecordDecl option"
  Fields :: "(Expr \<times> FieldDecl) list"
  Producer :: "VarDecl option"
  Consumer :: "VarDecl option"
  SStage :: HshStage
  DStage :: HshStage

text \<open>A default-constructed \<open>InterfaceRecord\<close>: null pointers, no fields, no stages.\<close>

definition InterfaceRecord_default :: InterfaceRecord where
  "InterfaceRecord_default =
     \<lparr>Record = None, Fields = [], Producer = None, Consumer = None,
      SStage = HshNoStage, DStage = HshNoStage\<rparr>"

text \<open>\<open>InterfaceRecord::initializeRecord\<close>: the struct \<open><S>_to_<D>\<close>, the producer variable
  \<open>_to_<D>\<close> and the consumer variable \<open>_from_<S>\<close>.\<close>

definition initializeRecord ::
  "HshStage \<Rightarrow> HshStage \<Rightarrow> InterfaceRecord \<Rightarrow> ASTContext \<Rightarrow> InterfaceRecord \<times> ASTContext"
where
  "initializeRecord S D R ctx =
     (let (a1, ctx1) = alloc ctx;
          (a2, ctx2) = alloc ctx1;
          (a3, ctx3) = alloc ctx2
      in (R\<lparr>Record := Some (CXXRecordDecl a1 (HshStageToString S @ ''_to_'' @ HshStageToString D) []),
             Producer := Some (VarDecl a2 (''_to_'' @ HshStageToString D) record_type),
             Consumer := Some (VarDecl a3 (''_from_'' @ HshStageToString S) record_type),
             SStage := S, DStage := D\<rparr>, ctx3))"

text \<open>
  Modelled from the spec: \<open>Expr::isSameComparisonOperand\<close> is a function of the Clang
  library part of this repository and is not among the sources at hand. The spec describes
  the comparison as "value equality of the expression tree, not identity": two
  expressions are the same when they agree everywhere except in the addresses of their
  nodes.
\<close>

primrec erase_addr :: "Expr \<Rightarrow> Expr"
  and erase_node :: "ExprNode \<Rightarrow> ExprNode"
where
  "erase_addr (MkExpr a T n) = MkExpr 0 T (erase_node n)"
| "erase_node (IntegerLiteral v) = IntegerLiteral v"
| "erase_node (FloatingLiteral m e) = FloatingLiteral m e"
| "erase_node (DeclRefExpr D) = DeclRefExpr D"
| "erase_node (MemberExpr Base F) = MemberExpr (erase_addr Base) F"
| "erase_node (Wrapper c Sub) = Wrapper c (erase_addr Sub)"
| "erase_node (BinaryOperator opc L R) = BinaryOperator opc (erase_addr L) (erase_addr R)"
| "erase_node (CallExpr Callee Args) = CallExpr (erase_addr Callee) (map erase_addr Args)"
| "erase_node (CXXMemberCallExpr Obj M Args) = CXXMemberCallExpr (erase_addr Obj) M (map erase_addr Args)"
| "erase_node (CXXOperatorCallExpr opc Args) = CXXOperatorCallExpr opc (map erase_addr Args)"
| "erase_node (CXXConstructExpr Args) = CXXConstructExpr (map erase_addr Args)"
| "erase_node (InitListExpr Args) = InitListExpr (map erase_addr Args)"

definition Expr_isSameComparisonOperand :: "Expr \<Rightarrow> Expr \<Rightarrow> bool" where
  "Expr_isSameComparisonOperand E1 E2 \<longleftrightarrow> erase_addr E1 = erase_addr E2"

text \<open>\<open>InterfaceRecord::isSameComparisonOperand\<close>: pointer identity first, then the
  library comparison (the two \<open>setValueKind\<close> calls have no counterpart, value kinds not
  being modelled).\<close>

definition isSameComparisonOperand :: "Expr \<Rightarrow> Expr \<Rightarrow> bool" where
  "isSameComparisonOperand E1 E2 =
     (if expr_addr E1 = expr_addr E2 then True else Expr_isSameComparisonOperand E1 E2)"

text \<open>
  \<open>InterfaceRecord::getFieldForExpr\<close>. The inner result is the \<open>FieldDecl *\<close> returned
  (\<open>None\<close> for \<open>nullptr\<close>); the record and the context are returned updated. The outer
  \<open>None\<close> is the null dereference \<open>Record->addDecl(FD)\<close> on a record that was never
  initialised.
\<close>

definition getFieldForExpr ::
  "Expr \<Rightarrow> bool \<Rightarrow> InterfaceRecord \<Rightarrow> ASTContext
     \<Rightarrow> (FieldDecl option \<times> InterfaceRecord \<times> ASTContext) option"
where
  "getFieldForExpr E IgnoreExisting R ctx =
     (case find_if (\<lambda>P. isSameComparisonOperand (fst P) E) (Fields R) of
        Some i \<Rightarrow> Some (if IgnoreExisting then None else Some (snd (Fields R ! i)), R, ctx)
      | None \<Rightarrow>
          (case Record R of
             None \<Rightarrow> None
           | Some RD \<Rightarrow>
               (let FieldName = CHR ''_'' # hd (HshStageToString (SStage R))
                                  # hd (HshStageToString (DStage R))
                                  # string_of_nat (length (Fields R));
                    (a, ctx') = alloc ctx;
                    FD = FieldDecl a FieldName (getType E)
                in Some (Some FD,
                         R\<lparr>Record := Some (CXXRecordDecl (rd_addr RD) (rd_name RD) (rd_decls RD @ [FD])),
                           Fields := Fields R @ [(E, FD)]\<rparr>,
                         ctx'))))"

text \<open>\<open>InterfaceRecord::createFieldReference\<close>: the member access \<open>VD.Field\<close>, or
  \<open>nullptr\<close> when no field is returned. \<open>VD\<close> is null only on a record that was never
  initialised.\<close>

definition createFieldReference ::
  "Expr \<Rightarrow> VarDecl option \<Rightarrow> bool \<Rightarrow> InterfaceRecord \<Rightarrow> ASTContext
     \<Rightarrow> (Expr option \<times> InterfaceRecord \<times> ASTContext) option"
where
  "createFieldReference E VD IgnoreExisting R ctx =
     (case getFieldForExpr E IgnoreExisting R ctx of
        None \<Rightarrow> None
      | Some (None, R', ctx') \<Rightarrow> Some (None, R', ctx')
      | Some (Some FD, R', ctx') \<Rightarrow>
          (case VD of
             None \<Rightarrow> None
           | Some V \<Rightarrow>
               (let (a1, ctx1) = alloc ctx';
                    (a2, ctx2) = alloc ctx1
                in Some (Some (MkExpr a2 (fd_type FD)
                                 (MemberExpr (MkExpr a1 (getType E) (DeclRefExpr (Var V))) FD)),
                         R', ctx2))))"

definition createProducerFieldReference ::
  "Expr \<Rightarrow> InterfaceRecord \<Rightarrow> ASTContext \<Rightarrow> (Expr option \<times> InterfaceRecord \<times> ASTContext) option"
where
  "createProducerFieldReference E R ctx = createFieldReference E (Producer R) True R ctx"

definition createConsumerFieldReference ::
  "Expr \<Rightarrow> InterfaceRecord \<Rightarrow> ASTContext \<Rightarrow> (Expr option \<times> InterfaceRecord \<times> ASTContext) option"
where
  "createConsumerFieldReference E R ctx = createFieldReference E (Consumer R) False R ctx"

section \<open>The stages builder\<close>

record StageStmtList =
  Stmts :: "Stmt list"
  StmtDeclRefCount :: "(32 word \<times> nat option) list"

text \<open>\<open>enum HshTextureKind\<close>: one enumerator \<open>HTK_<Name>_<elem>\<close> per texture type of
  BuiltinTypes.def and element class.\<close>

datatype HshTextureKind = HTK TextureName TextureElem

record TextureRecord =
  Name :: string
  Kind :: HshTextureKind
  UseStages :: "32 word"

text \<open>
  \<open>enum HshSamplerFilterMode { HSF_Linear, HSF_Nearest }\<close> and
  \<open>enum HshSamplerWrapMode { HSW_Repeat, HSW_Clamp }\<close>. A \<open>SamplerConfig\<close> is built by
  converting whatever integers the constant evaluator delivers, so its two members are
  kept as the integers they hold, with the enumerators as named values.
\<close>

definition HSF_Linear :: int where "HSF_Linear = 0"
definition HSW_Repeat :: int where "HSW_Repeat = 0"

record SamplerConfig =
  Filter :: int
  Wrap :: int

record SamplerRecord =
  Config :: SamplerConfig
  UseStages :: "32 word"

record SampleCall =
  Expr :: Expr
  Index :: "32 word"
  SamplerIndex :: "32 word"

text \<open>\<open>struct AssignmentFinderInfo\<close>: three pointers.\<close>

record AssignmentFinderInfo =
  Body :: "nat option"
  LastCompoundChild :: "nat option"
  SelectedVarDecl :: "nat option"

text \<open>
  The members of \<open>StagesBuilder\<close> that the functions below read or write. The arrays
  indexed by stage have \<open>HshMaxStage\<close> entries. \<open>Context\<close> is the \<open>ASTContext &\<close> the builder
  was constructed with.
\<close>

record StagesBuilder =
  Context :: ASTContext
  UseStages :: "32 word"
  HostToStageRecords :: "InterfaceRecord list"
  InterStageRecords :: "InterfaceRecord list"
  StageStmts :: "StageStmtList list"
  SampleCalls :: "SampleCall list list"
  Textures :: "TextureRecord list"
  Samplers :: "SamplerRecord list"
  AssignFindInfo :: AssignmentFinderInfo

definition HSH_MAX_SAMPLERS :: nat where
  "HSH_MAX_SAMPLERS = 32"

text \<open>Whether a stage can index the per-stage arrays: \<open>0 \<le> Stage < HshMaxStage\<close>, that is,
  every stage but \<open>HshNoStage\<close>.\<close>

definition stage_idx :: "HshStage \<Rightarrow> nat" where
  "stage_idx Stage = nat (stage_int Stage)"

text \<open>
  \<open>StagesBuilder::registerTexture\<close>. The result is \<open>None\<close> where the source has undefined
  behaviour (the shift by \<open>HshNoStage = -1\<close>).
\<close>

definition registerTexture ::
  "string \<Rightarrow> HshTextureKind \<Rightarrow> HshStage \<Rightarrow> StagesBuilder \<Rightarrow> StagesBuilder option"
where
  "registerTexture N K Stage B =
     (if Stage = HshNoStage then None
      else
        (case find_if (\<lambda>T. Name T = N) (Textures B) of
           Some i \<Rightarrow>
             Some (B\<lparr>Textures := (Textures B)[i := (Textures B ! i)
                        \<lparr>TextureRecord.UseStages :=
                           TextureRecord.UseStages (Textures B ! i) OR stage_bit Stage\<rparr>]\<rparr>)
         | None \<Rightarrow>
             Some (B\<lparr>Textures := Textures B @
                        [\<lparr>Name = N, Kind = K, UseStages = stage_bit Stage\<rparr>]\<rparr>)))"

text \<open>A sequence of registrations, each on the builder the previous one left.\<close>

fun registerTextures ::
  "(string \<times> HshTextureKind \<times> HshStage) list \<Rightarrow> StagesBuilder \<Rightarrow> StagesBuilder option"
where
  "registerTextures [] B = Some B"
| "registerTextures ((N, K, Stage) # rs) B =
     (case registerTexture N K Stage B of
        None \<Rightarrow> None
      | Some B' \<Rightarrow> registerTextures rs B')"

text \<open>\<open>UseStages & (1u << unsigned(D))\<close>\<close>

definition stage_used :: "32 word \<Rightarrow> HshStage \<Rightarrow> bool" where
  "stage_used U D \<longleftrightarrow> U AND stage_bit D \<noteq> 0"

text \<open>The stages a counting loop \<open>for (int D = lo; D <= hi; ++D)\<close> runs through.\<close>

definition stages_upto :: "int \<Rightarrow> int \<Rightarrow> HshStage list" where
  "stages_upto lo hi = map HshStage_of [lo..hi]"

text \<open>
  The constructor \<open>StagesBuilder(Context, SpecDeclContext, UseStages)\<close>: a host record for
  every used stage from the vertex stage on, and an inter-stage record for every used
  stage from the control stage on, whose producer stage is the previous used stage (the
  vertex stage to begin with).
\<close>

fun init_HostToStageRecords ::
  "32 word \<Rightarrow> HshStage list \<Rightarrow> InterfaceRecord list \<Rightarrow> ASTContext \<Rightarrow> InterfaceRecord list \<times> ASTContext"
where
  "init_HostToStageRecords U [] Rs ctx = (Rs, ctx)"
| "init_HostToStageRecords U (D # Ds) Rs ctx =
     (if stage_used U D then
        (let (R, ctx') = initializeRecord HshHostStage D (Rs ! stage_idx D) ctx
         in init_HostToStageRecords U Ds (Rs[stage_idx D := R]) ctx')
      else init_HostToStageRecords U Ds Rs ctx)"

fun init_InterStageRecords ::
  "32 word \<Rightarrow> HshStage list \<Rightarrow> HshStage \<Rightarrow> InterfaceRecord list \<Rightarrow> ASTContext
     \<Rightarrow> InterfaceRecord list \<times> ASTContext"
where
  "init_InterStageRecords U [] S Rs ctx = (Rs, ctx)"
| "init_InterStageRecords U (D # Ds) S Rs ctx =
     (if stage_used U D then
        (let (R, ctx') = initializeRecord S D (Rs ! stage_idx D) ctx
         in init_InterStageRecords U Ds D (Rs[stage_idx D := R]) ctx')
      else init_InterStageRecords U Ds S Rs ctx)"

definition StagesBuilder_new :: "ASTContext \<Rightarrow> 32 word \<Rightarrow> StagesBuilder" where
  "StagesBuilder_new ctx U =
     (let (H, ctx1) = init_HostToStageRecords U (stages_upto 1 5)
                        (replicate 6 InterfaceRecord_default) ctx;
          (I, ctx2) = init_InterStageRecords U (stages_upto 2 5) HshVertexStage
                        (replicate 6 InterfaceRecord_default) ctx1
      in \<lparr>Context = ctx2, UseStages = U, HostToStageRecords = H, InterStageRecords = I,
          StageStmts = replicate 6 \<lparr>Stmts = [], StmtDeclRefCount = []\<rparr>,
          SampleCalls = replicate 6 [],
          Textures = [], Samplers = [],
          AssignFindInfo = \<lparr>Body = None, LastCompoundChild = None, SelectedVarDecl = None\<rparr>\<rparr>)"

text \<open>
  For stating properties of interface records: whether a record holds a field for an
  expression (an entry whose expression \<open>isSameComparisonOperand\<close> accepts), the field of
  the first such entry, and the shape of the member access \<open>VD.F\<close> that
  \<open>createFieldReference\<close> builds for \<open>E\<close>, at whatever addresses.
\<close>

definition has_field :: "InterfaceRecord \<Rightarrow> Expr \<Rightarrow> bool" where
  "has_field R E \<longleftrightarrow> (\<exists>P \<in> set (Fields R). isSameComparisonOperand (fst P) E)"

definition field_for :: "InterfaceRecord \<Rightarrow> Expr \<Rightarrow> FieldDecl option" where
  "field_for R E =
     map_option (\<lambda>i. snd (Fields R ! i))
       (find_if (\<lambda>P. isSameComparisonOperand (fst P) E) (Fields R))"

definition field_reference :: "VarDecl option \<Rightarrow> FieldDecl \<Rightarrow> Expr \<Rightarrow> Expr \<Rightarrow> bool" where
  "field_reference VD F E X \<longleftrightarrow>
     (\<exists>V a1 a2. VD = Some V \<and>
        X = MkExpr a2 (fd_type F) (MemberExpr (MkExpr a1 (getType E) (DeclRefExpr (Var V))) F))"

subsection \<open>Per-stage statement lists\<close>

text \<open>
  The parallel walk over \<open>Stmts\<close> and \<open>StmtDeclRefCount\<close> that both functions below
  perform: the position of the first declaration statement whose recorded originating
  declaration is \<open>OrigDecl\<close>. The two vectors always have the same length (every
  \<open>push_back\<close> and \<open>erase\<close> is done on both).
\<close>

definition find_decl_entry :: "nat option \<Rightarrow> StageStmtList \<Rightarrow> nat option" where
  "find_decl_entry OrigDecl L =
     find_if (\<lambda>(I, RefCount). isa_DeclStmt I \<and> snd RefCount = OrigDecl)
       (zip (Stmts L) (StmtDeclRefCount L))"

text \<open>
  \<open>StagesBuilder::addStageStmt\<close>. \<open>OrigDecl\<close> is the address of the originating variable
  (\<open>None\<close> for the default \<open>nullptr\<close>). Indexing \<open>StageStmts\<close> with \<open>HshNoStage = -1\<close> is out
  of bounds: the result is \<open>None\<close> there.
\<close>

definition addStageStmt ::
  "Stmt \<Rightarrow> HshStage \<Rightarrow> nat option \<Rightarrow> StagesBuilder \<Rightarrow> StagesBuilder option"
where
  "addStageStmt S Stage OrigDecl B =
     (if Stage = HshNoStage then None
      else
        (let L = StageStmts B ! stage_idx Stage;
             pushed = B\<lparr>StageStmts := (StageStmts B)[stage_idx Stage :=
                         L\<lparr>Stmts := Stmts L @ [S],
                           StmtDeclRefCount := StmtDeclRefCount L @ [(1, OrigDecl)]\<rparr>]\<rparr>
         in if isa_DeclStmt S then
              (case find_decl_entry OrigDecl L of
                 Some i \<Rightarrow>
                   Some (B\<lparr>StageStmts := (StageStmts B)[stage_idx Stage :=
                            L\<lparr>StmtDeclRefCount := (StmtDeclRefCount L)[i :=
                                 (fst (StmtDeclRefCount L ! i) + 1, snd (StmtDeclRefCount L ! i))]\<rparr>]\<rparr>)
               | None \<Rightarrow> Some pushed)
            else if (\<exists>ES \<in> set (Stmts L). stmt_addr ES = stmt_addr S) then Some B
            else Some pushed))"

text \<open>
  Two notions for stating properties of a statement list: the originating declarations
  of its declaration statements, in order, and well-formedness, namely that the two
  vectors have the same length and that no two declaration statements of the list come
  from the same originating declaration.
\<close>

definition decl_origins :: "StageStmtList \<Rightarrow> nat option list" where
  "decl_origins L =
     map snd (filter (\<lambda>P. isa_DeclStmt (fst P)) (zip (Stmts L) (map snd (StmtDeclRefCount L))))"

definition StageStmtList_ok :: "StageStmtList \<Rightarrow> bool" where
  "StageStmtList_ok L \<longleftrightarrow>
     length (Stmts L) = length (StmtDeclRefCount L) \<and> distinct (decl_origins L)"

text \<open>\<open>vector::erase\<close> of one position.\<close>

definition erase_at :: "nat \<Rightarrow> 'a list \<Rightarrow> 'a list" where
  "erase_at i xs = take i xs @ drop (Suc i) xs"

text \<open>\<open>StagesBuilder::liftDeclStmt\<close>; the declaration statement is given by its address,
  its variable and the initialiser.\<close>

definition liftDeclStmt ::
  "nat \<Rightarrow> VarDecl \<Rightarrow> Expr option \<Rightarrow> HshStage \<Rightarrow> HshStage \<Rightarrow> nat option \<Rightarrow> StagesBuilder
     \<Rightarrow> StagesBuilder option"
where
  "liftDeclStmt a VD Init From To OrigDecl B =
     (case addStageStmt (DeclStmt a VD Init) To OrigDecl B of
        None \<Rightarrow> None
      | Some B1 \<Rightarrow>
          (if From = HshNoStage then None
           else
             (let L = StageStmts B1 ! stage_idx From
              in case find_decl_entry OrigDecl L of
                   None \<Rightarrow> Some B1
                 | Some i \<Rightarrow>
                     (let c = fst (StmtDeclRefCount L ! i) - 1
                      in if c = 0 then
                           Some (B1\<lparr>StageStmts := (StageStmts B1)[stage_idx From :=
                                   L\<lparr>Stmts := erase_at i (Stmts L),
                                     StmtDeclRefCount := erase_at i (StmtDeclRefCount L)\<rparr>]\<rparr>)
                         else
                           Some (B1\<lparr>StageStmts := (StageStmts B1)[stage_idx From :=
                                   L\<lparr>StmtDeclRefCount := (StmtDeclRefCount L)[i :=
                                        (c, snd (StmtDeclRefCount L ! i))]\<rparr>]\<rparr>)))))"

subsection \<open>Inter-stage references\<close>

text \<open>
  One round of the loop in \<open>StagesBuilder::VisitExpr\<close> for a used stage \<open>D\<close>, with \<open>S\<close> the
  previous stage of the walk. The nodes of the consumer reference are allocated before
  the assignment node. A null right-hand side cannot arise (the consumer reference is
  requested without \<open>IgnoreExisting\<close>); the model has \<open>None\<close> there.
\<close>

definition VisitExpr_hop ::
  "Expr \<Rightarrow> HshStage \<Rightarrow> HshStage \<Rightarrow> HshStage \<Rightarrow> StagesBuilder \<Rightarrow> StagesBuilder option"
where
  "VisitExpr_hop E From S D B =
     (case createProducerFieldReference E (InterStageRecords B ! stage_idx D) (Context B) of
        None \<Rightarrow> None
      | Some (None, DRecord, ctx1) \<Rightarrow>
          Some (B\<lparr>InterStageRecords := (InterStageRecords B)[stage_idx D := DRecord],
                  Context := ctx1\<rparr>)
      | Some (Some ProducerRef, DRecord, ctx1) \<Rightarrow>
          (let B1 = B\<lparr>InterStageRecords := (InterStageRecords B)[stage_idx D := DRecord],
                      Context := ctx1\<rparr>;
               rhs = (if S = From then Some (Some E, B1)
                      else
                        (case createConsumerFieldReference E
                                (InterStageRecords B1 ! stage_idx S) (Context B1) of
                           None \<Rightarrow> None
                         | Some (R, SRecord, ctx2) \<Rightarrow>
                             Some (R, B1\<lparr>InterStageRecords :=
                                          (InterStageRecords B1)[stage_idx S := SRecord],
                                        Context := ctx2\<rparr>)))
           in case rhs of
                None \<Rightarrow> None
              | Some (None, B2) \<Rightarrow> None
              | Some (Some RHS, B2) \<Rightarrow>
                  (let (a, ctx3) = alloc (Context B2)
                   in addStageStmt
                        (ExprStmt (MkExpr a (getType E) (BinaryOperator BO_Assign ProducerRef RHS)))
                        S None (B2\<lparr>Context := ctx3\<rparr>))))"

text \<open>The loop \<open>for (int D = From + 1, S = From; D <= To; ++D)\<close>, over the stages it
  counts through.\<close>

fun VisitExpr_loop ::
  "Expr \<Rightarrow> HshStage \<Rightarrow> HshStage list \<Rightarrow> HshStage \<Rightarrow> StagesBuilder \<Rightarrow> StagesBuilder option"
where
  "VisitExpr_loop E From [] S B = Some B"
| "VisitExpr_loop E From (D # Ds) S B =
     (if stage_used (UseStages B) D then
        (case VisitExpr_hop E From S D B of
           None \<Rightarrow> None
         | Some B' \<Rightarrow> VisitExpr_loop E From Ds D B')
      else VisitExpr_loop E From Ds S B)"

text \<open>
  \<open>StagesBuilder::VisitExpr\<close>, the base case of \<open>createInterStageReferenceExpr\<close>. The result
  is the expression returned and the builder afterwards; \<open>None\<close> where the source
  dereferences a null pointer (a record that was never initialised).
\<close>

definition VisitExpr ::
  "Expr \<Rightarrow> HshStage \<Rightarrow> HshStage \<Rightarrow> StagesBuilder \<Rightarrow> (Expr \<times> StagesBuilder) option"
where
  "VisitExpr E From To B =
     (if From = To \<or> From = HshNoStage \<or> To = HshNoStage then Some (E, B)
      else
        (case
           (if From \<noteq> HshHostStage then
              VisitExpr_loop E From (stages_upto (stage_int From + 1) (stage_int To)) From B
            else
              (case createProducerFieldReference E
                      (HostToStageRecords B ! stage_idx To) (Context B) of
                 None \<Rightarrow> None
               | Some (None, R, ctx1) \<Rightarrow>
                   Some (B\<lparr>HostToStageRecords := (HostToStageRecords B)[stage_idx To := R],
                           Context := ctx1\<rparr>)
               | Some (Some ProducerRef, R, ctx1) \<Rightarrow>
                   (let (a, ctx2) = alloc ctx1
                    in addStageStmt
                         (ExprStmt (MkExpr a (getType E) (BinaryOperator BO_Assign ProducerRef E)))
                         From None
                         (B\<lparr>HostToStageRecords := (HostToStageRecords B)[stage_idx To := R],
                            Context := ctx2\<rparr>))))
         of
           None \<Rightarrow> None
         | Some B1 \<Rightarrow>
             (if From = HshHostStage then
                (case createConsumerFieldReference E
                        (HostToStageRecords B1 ! stage_idx To) (Context B1) of
                   None \<Rightarrow> None
                 | Some (None, R, ctx) \<Rightarrow> None
                 | Some (Some Ref, R, ctx) \<Rightarrow>
                     Some (Ref, B1\<lparr>HostToStageRecords :=
                                     (HostToStageRecords B1)[stage_idx To := R],
                                   Context := ctx\<rparr>))
              else
                (case createConsumerFieldReference E
                        (InterStageRecords B1 ! stage_idx To) (Context B1) of
                   None \<Rightarrow> None
                 | Some (None, R, ctx) \<Rightarrow> None
                 | Some (Some Ref, R, ctx) \<Rightarrow>
                     Some (Ref, B1\<lparr>InterStageRecords :=
                                     (InterStageRecords B1)[stage_idx To := R],
                                   Context := ctx\<rparr>)))))"

text \<open>
  For stating what \<open>VisitExpr\<close> leaves behind. The pairs \<open>(S, D)\<close> of consecutive used
  stages that the loop of \<open>VisitExpr\<close> goes through, \<open>S\<close> starting at the source stage; for
  a value of the host there is the one pair of the host and the target stage.
\<close>

fun hop_pairs :: "32 word \<Rightarrow> HshStage \<Rightarrow> HshStage list \<Rightarrow> (HshStage \<times> HshStage) list" where
  "hop_pairs U S [] = []"
| "hop_pairs U S (D # Ds) =
     (if stage_used U D then (S, D) # hop_pairs U D Ds else hop_pairs U S Ds)"

definition active_hops :: "32 word \<Rightarrow> HshStage \<Rightarrow> HshStage \<Rightarrow> (HshStage \<times> HshStage) list" where
  "active_hops U From To =
     (if From = HshHostStage then [(HshHostStage, To)]
      else hop_pairs U From (stages_upto (stage_int From + 1) (stage_int To)))"

text \<open>An interface record on which \<open>initializeRecord\<close> has run: the struct and the two
  variables exist.\<close>

definition record_ready :: "InterfaceRecord \<Rightarrow> bool" where
  "record_ready R \<longleftrightarrow> Record R \<noteq> None \<and> Producer R \<noteq> None \<and> Consumer R \<noteq> None"

text \<open>Every statement of the stage lists lies at an address that the allocator has
  handed out.\<close>

definition stmts_allocated :: "StagesBuilder \<Rightarrow> bool" where
  "stmts_allocated B \<longleftrightarrow>
     (\<forall>L \<in> set (StageStmts B). \<forall>X \<in> set (Stmts L). stmt_addr X < NextAddr (Context B))"

text \<open>
  A builder as its constructor leaves the tables that \<open>VisitExpr\<close> works on: six entries
  in each array, a host record on every used stage from the vertex stage on, an
  inter-stage record on every used stage from the control stage on, and statements at
  allocated addresses only.
\<close>

definition builder_ready :: "StagesBuilder \<Rightarrow> bool" where
  "builder_ready B \<longleftrightarrow>
     length (HostToStageRecords B) = 6 \<and> length (InterStageRecords B) = 6 \<and>
     length (StageStmts B) = 6 \<and>
     (\<forall>D \<in> set (stages_upto 1 5). stage_used (UseStages B) D \<longrightarrow>
         record_ready (HostToStageRecords B ! stage_idx D)) \<and>
     (\<forall>D \<in> set (stages_upto 2 5). stage_used (UseStages B) D \<longrightarrow>
         record_ready (InterStageRecords B ! stage_idx D)) \<and>
     stmts_allocated B"

text \<open>
  What one pair \<open>(S, D)\<close> shows after \<open>VisitExpr\<close> on \<open>E\<close> from stage \<open>From\<close>, between the
  records \<open>Rs\<close> and statement lists \<open>Ls\<close> before and \<open>Rs'\<close> and \<open>Ls'\<close> after. If the record of
  \<open>D\<close> held a field for \<open>E\<close>, the record and the statements of \<open>S\<close> are as before. Otherwise
  the record has gained one field, for \<open>E\<close>, and the statements of \<open>S\<close> one statement, the
  assignment to the producer reference of that field of \<open>E\<close> itself if \<open>S\<close> is the source
  stage, and else of the consumer reference of the field for \<open>E\<close> in the record of \<open>S\<close>.
\<close>

definition hop_result ::
  "Expr \<Rightarrow> HshStage \<Rightarrow> InterfaceRecord list \<Rightarrow> InterfaceRecord list
     \<Rightarrow> StageStmtList list \<Rightarrow> StageStmtList list \<Rightarrow> HshStage \<times> HshStage \<Rightarrow> bool"
where
  "hop_result E From Rs Rs' Ls Ls' hop =
     (let R = Rs ! stage_idx (snd hop); R' = Rs' ! stage_idx (snd hop);
          L = Ls ! stage_idx (fst hop); L' = Ls' ! stage_idx (fst hop)
      in has_field R' E \<and>
         (if has_field R E then R' = R \<and> L' = L
          else (\<exists>F a ProducerRef RHS.
                  Fields R' = Fields R @ [(E, F)] \<and>
                  Stmts L' = Stmts L @
                    [ExprStmt (MkExpr a (getType E) (BinaryOperator BO_Assign ProducerRef RHS))] \<and>
                  field_reference (Producer R') F E ProducerRef \<and>
                  (if fst hop = From then RHS = E
                   else (\<exists>G. field_for (Rs' ! stage_idx (fst hop)) E = Some G \<and>
                           field_reference (Consumer (Rs' ! stage_idx (fst hop))) G E RHS)))))"






subsection \<open>Sample calls and the sampler table\<close>

text \<open>
  The value a sampler argument folds to, as far as the generator inspects it: an integer,
  a struct with its fields, or anything else.
\<close>

datatype APValue = APValue_Int int | APValue_Struct "APValue list" | APValue_Other

fun isInt :: "APValue \<Rightarrow> bool" where
  "isInt (APValue_Int v) = True"
| "isInt (APValue_Struct fs) = False"
| "isInt APValue_Other = False"

fun getInt :: "APValue \<Rightarrow> int" where
  "getInt (APValue_Int v) = v"
| "getInt (APValue_Struct fs) = 0"
| "getInt APValue_Other = 0"

definition NumFields :: nat where
  "NumFields = 2"

text \<open>\<open>SamplerConfig::ValidateSamplerStruct\<close>\<close>

fun ValidateSamplerStruct :: "APValue \<Rightarrow> bool" where
  "ValidateSamplerStruct (APValue_Struct fs) = (length fs = NumFields \<and> list_all isInt fs)"
| "ValidateSamplerStruct (APValue_Int v) = False"
| "ValidateSamplerStruct APValue_Other = False"

text \<open>The constructor \<open>SamplerConfig(const APValue &)\<close>, applied to a validated struct.\<close>

fun SamplerConfig_of :: "APValue \<Rightarrow> SamplerConfig" where
  "SamplerConfig_of (APValue_Struct fs) = \<lparr>Filter = getInt (fs ! 0), Wrap = getInt (fs ! 1)\<rparr>"
| "SamplerConfig_of (APValue_Int v) = \<lparr>Filter = HSF_Linear, Wrap = HSW_Repeat\<rparr>"
| "SamplerConfig_of APValue_Other = \<lparr>Filter = HSF_Linear, Wrap = HSW_Repeat\<rparr>"

text \<open>
  \<open>StagesBuilder::getTextureIndex(ParmVarDecl *)\<close>: the vertex texture attribute first, then
  the fragment one, else \<open>{HshNoStage, APSInt{}}\<close>. Reading the integer of an index that did
  not evaluate is outside defined behaviour: \<open>None\<close>.
\<close>

definition getTextureIndex :: "ParmVarDecl \<Rightarrow> (HshStage \<times> int) option" where
  "getTextureIndex PVD =
     (case getAttr VertexTextureAttr PVD of
        Some A \<Rightarrow> map_option (\<lambda>i. (HshVertexStage, i)) (getIndex A)
      | None \<Rightarrow>
          (case getAttr FragmentTextureAttr PVD of
             Some A \<Rightarrow> map_option (\<lambda>i. (HshFragmentStage, i)) (getIndex A)
           | None \<Rightarrow> Some (HshNoStage, 0)))"

text \<open>
  \<open>StagesBuilder::registerSampleCall\<close> (the method argument \<open>HBM\<close> is unused in the source
  and left out). \<open>C\<close> is the call node; its first operand is the implicit object argument
  with parentheses and implicit casts already looked through
  (\<open>getImplicitObjectArgument()->IgnoreParenImpCasts()\<close>). Constant evaluation of the
  sampler argument is Clang's and is the parameter \<open>isCXX11ConstantExpr\<close>. \<open>None\<close> stands
  for what the source leaves undefined: a node that is no member call or has no second
  argument, an index that did not evaluate, and indexing \<open>SampleCalls\<close> with
  \<open>HshNoStage\<close> (a parameter without a texture attribute).
\<close>

definition registerSampleCall ::
  "(Expr \<Rightarrow> APValue option) \<Rightarrow> Expr \<Rightarrow> StagesBuilder \<Rightarrow> StagesBuilder option"
where
  "registerSampleCall isCXX11ConstantExpr C B =
     (case node C of
        CXXMemberCallExpr Obj M Args \<Rightarrow>
          (case node Obj of
             DeclRefExpr (ParmVar PVD) \<Rightarrow>
               (case getTextureIndex PVD of
                  None \<Rightarrow> None
                | Some (TexStage, TexIdx) \<Rightarrow>
                    (if TexStage = HshNoStage then None
                     else
                       (let StageCalls = SampleCalls B ! stage_idx TexStage
                        in if (\<exists>Call \<in> set StageCalls. expr_addr (Expr Call) = expr_addr C)
                           then Some B
                           else if length Args < 2 then None
                           else
                             (let SamplerArg = Args ! 1
                              in case isCXX11ConstantExpr SamplerArg of
                                   None \<Rightarrow>
                                     Some (B\<lparr>Context := ReportCustom (expr_addr SamplerArg)
                                               err_nonconstexpr_sampler Error (Context B)\<rparr>)
                                 | Some Res \<Rightarrow>
                                     (if \<not> ValidateSamplerStruct Res then
                                        Some (B\<lparr>Context := ReportCustom (expr_addr SamplerArg)
                                                  err_bad_sampler_struct_format Error (Context B)\<rparr>)
                                      else
                                        (let Sampler = SamplerConfig_of Res;
                                             push = (\<lambda>i B'. B'\<lparr>SampleCalls := (SampleCalls B')[stage_idx TexStage :=
                                                        SampleCalls B' ! stage_idx TexStage @
                                                          [\<lparr>Expr = C, Index = word_of_int TexIdx,
                                                            SamplerIndex = of_nat i\<rparr>]]\<rparr>)
                                         in case find_if (\<lambda>S. Config S = Sampler) (Samplers B) of
                                              None \<Rightarrow>
                                                (if length (Samplers B) = HSH_MAX_SAMPLERS then
                                                   Some (B\<lparr>Context := ReportCustom (expr_addr SamplerArg)
                                                             err_sampler_overflow Error (Context B)\<rparr>)
                                                 else
                                                   Some (push (length (Samplers B))
                                                     (B\<lparr>Samplers := Samplers B @
                                                          [\<lparr>Config = Sampler, UseStages = stage_bit TexStage\<rparr>]\<rparr>)))
                                            | Some i \<Rightarrow>
                                                Some (push i
                                                  (B\<lparr>Samplers := (Samplers B)[i := (Samplers B ! i)
                                                       \<lparr>SamplerRecord.UseStages :=
                                                          SamplerRecord.UseStages (Samplers B ! i)
                                                            OR stage_bit TexStage\<rparr>]\<rparr>))))))))
           | _ \<Rightarrow> Some B)
      | _ \<Rightarrow> None)"

section \<open>Stage inference: binary operations\<close>






section \<open>The generator: parameter checks and emission\<close>

datatype HshInterfaceDirection = HshInput | HshOutput | HshInOut


















subsection \<open>Compiled stages and their emission\<close>

datatype HshTarget =
    HT_GLSL | HT_HLSL | HT_DXBC | HT_DXIL | HT_VULKAN_SPIRV
  | HT_METAL | HT_METAL_BIN_MAC | HT_METAL_BIN_IOS | HT_METAL_BIN_TVOS




text \<open>
  What \<open>run\<close> writes. \<open>AnonOS\<close> receives the generated specialisation and, per target, the
  shader-data table; \<open>OS\<close> receives the shader objects. The texts are kept as entries:
  \<open>ShaderObjectRef h\<close> is the table line \<open>_hsho_<h>,\<close>; \<open>SourceComment\<close>, \<open>DataArray h\<close> and
  \<open>ShaderObjectDef\<close> are the commented source, the array \<open>_hshs_<h>\<close> with the bytes and the
  object \<open>_hsho_<h>\<close> that refers to it.
\<close>

datatype AnonEntry =
    SpecRecord string
  | GlobalListNode string
  | ShaderDataBegin HshTarget nat nat nat string
  | ShaderObjectRef "64 word"
  | VertexBindingEntry nat
  | VertexAttributeEntry nat
  | ShaderDataEnd
  | CaptureMacro string "string list"











fun ref_hashes :: "AnonEntry list \<Rightarrow> 64 word list" where
  "ref_hashes [] = []"
| "ref_hashes (ShaderObjectRef h # es) = h # ref_hashes es"
| "ref_hashes (SpecRecord n # es) = ref_hashes es"
| "ref_hashes (GlobalListNode n # es) = ref_hashes es"
| "ref_hashes (ShaderDataBegin t a b c n # es) = ref_hashes es"
| "ref_hashes (VertexBindingEntry i # es) = ref_hashes es"
| "ref_hashes (VertexAttributeEntry i # es) = ref_hashes es"
| "ref_hashes (ShaderDataEnd # es) = ref_hashes es"
| "ref_hashes (CaptureMacro n cs # es) = ref_hashes es"


section \<open>Facts about \<open>find_if\<close>\<close>

lemma find_if_None: "find_if P xs = None \<longleftrightarrow> (\<forall>x \<in> set xs. \<not> P x)"
  by (induction xs) (auto split: option.splits)

lemma find_if_Some:
  "find_if P xs = Some i \<Longrightarrow> i < length xs \<and> P (xs ! i) \<and> (\<forall>j < i. \<not> P (xs ! j))"
proof (induction xs arbitrary: i)
  case Nil
  then show ?case by simp
next
  case (Cons x xs)
  show ?case
  proof (cases "P x")
    case True
    with Cons.prems show ?thesis by simp
  next
    case False
    with Cons.prems obtain k where k: "find_if P xs = Some k" "i = Suc k"
      by (auto split: option.splits)
    from Cons.IH[OF k(1)] False k(2) show ?thesis
      by (auto simp: nth_Cons split: nat.splits)
  qed
qed



section \<open>A freshly constructed builder\<close>

lemma StagesBuilder_new_tables:
  "Samplers (StagesBuilder_new ctx U) = []"
  "SampleCalls (StagesBuilder_new ctx U) = replicate 6 []"
  "Textures (StagesBuilder_new ctx U) = []"
  "StageStmts (StagesBuilder_new ctx U) = replicate 6 \<lparr>Stmts = [], StmtDeclRefCount = []\<rparr>"
  "UseStages (StagesBuilder_new ctx U) = U"
  by (simp_all add: StagesBuilder_new_def Let_def split: prod.splits)

lemma bit_stage_bit:
  assumes "Stage \<noteq> HshNoStage"
  shows "bit (stage_bit Stage) n \<longleftrightarrow> n = stage_idx Stage"
proof -
  from assms have "nat (stage_int Stage) < 32" by (cases Stage) simp_all
  then show ?thesis
    unfolding stage_bit_def stage_idx_def by (auto simp: bit_exp_iff)
qed

section \<open>Fields of an interface record\<close>

lemma has_field_find:
  "has_field R E \<longleftrightarrow> find_if (\<lambda>P. isSameComparisonOperand (fst P) E) (Fields R) \<noteq> None"
  by (auto simp: has_field_def find_if_None)

lemma field_for_Some:
  assumes "has_field R E"
  shows "\<exists>i < length (Fields R). field_for R E = Some (snd (Fields R ! i)) \<and>
           isSameComparisonOperand (fst (Fields R ! i)) E"
proof -
  from assms obtain i where i: "find_if (\<lambda>P. isSameComparisonOperand (fst P) E) (Fields R) = Some i"
    by (auto simp: has_field_find)
  from find_if_Some[OF i] i show ?thesis by (auto simp: field_for_def)
qed

lemma field_for_None: "\<not> has_field R E \<Longrightarrow> field_for R E = None"
  by (simp add: has_field_find field_for_def)

lemma getFieldForExpr_existing:
  assumes "has_field R E"
  shows "getFieldForExpr E Ign R ctx = Some (if Ign then None else field_for R E, R, ctx)"
  using assms
  by (auto simp: has_field_find getFieldForExpr_def field_for_def)

lemma getFieldForExpr_new:
  assumes "\<not> has_field R E" and "Record R = Some RD"
  shows "getFieldForExpr E Ign R ctx =
     Some (Some (FieldDecl (NextAddr ctx)
                   (CHR ''_'' # hd (HshStageToString (SStage R)) # hd (HshStageToString (DStage R))
                      # string_of_nat (length (Fields R)))
                   (getType E)),
           R\<lparr>Record := Some (CXXRecordDecl (rd_addr RD) (rd_name RD)
                 (rd_decls RD @ [FieldDecl (NextAddr ctx)
                   (CHR ''_'' # hd (HshStageToString (SStage R)) # hd (HshStageToString (DStage R))
                      # string_of_nat (length (Fields R)))
                   (getType E)])),
             Fields := Fields R @ [(E, FieldDecl (NextAddr ctx)
                   (CHR ''_'' # hd (HshStageToString (SStage R)) # hd (HshStageToString (DStage R))
                      # string_of_nat (length (Fields R)))
                   (getType E))]\<rparr>,
           ctx\<lparr>NextAddr := Suc (NextAddr ctx)\<rparr>)"
  using assms
  by (simp add: has_field_find getFieldForExpr_def alloc_def Let_def)


section \<open>The texture table\<close>

lemma registerTexture_step:
  assumes d: "distinct (map Name (Textures B))" and st: "Stage \<noteq> HshNoStage"
  shows "\<exists>B'. registerTexture N K Stage B = Some B' \<and> distinct (map Name (Textures B')) \<and>
     (if N \<in> Name ` set (Textures B)
      then length (Textures B') = length (Textures B) \<and>
           (\<exists>i < length (Textures B). Name (Textures B ! i) = N \<and>
              B' = B\<lparr>Textures := (Textures B)[i := (Textures B ! i)
                      \<lparr>TextureRecord.UseStages :=
                         TextureRecord.UseStages (Textures B ! i) OR stage_bit Stage\<rparr>]\<rparr>)
      else B' = B\<lparr>Textures := Textures B @ [\<lparr>Name = N, Kind = K, UseStages = stage_bit Stage\<rparr>]\<rparr>)"
proof (cases "find_if (\<lambda>T. Name T = N) (Textures B)")
  case None
  then have nin: "N \<notin> Name ` set (Textures B)"
    by (auto simp: find_if_None)
  with None d st show ?thesis
    by (simp add: registerTexture_def)
next
  case (Some i)
  from find_if_Some[OF Some] have i: "i < length (Textures B)" "Name (Textures B ! i) = N"
    by auto
  then have isin: "N \<in> Name ` set (Textures B)"
    by (metis imageI nth_mem)
  let ?r = "(Textures B ! i)\<lparr>TextureRecord.UseStages :=
               TextureRecord.UseStages (Textures B ! i) OR stage_bit Stage\<rparr>"
  have "map Name ((Textures B)[i := ?r]) = map Name (Textures B)"
    using i by (simp add: map_update list_update_same_conv)
  with Some d st i isin show ?thesis
    by (auto simp: registerTexture_def)
qed

lemma registerTextures_distinct:
  "distinct (map Name (Textures B0)) \<Longrightarrow> \<forall>r \<in> set rs. snd (snd r) \<noteq> HshNoStage \<Longrightarrow>
   \<exists>B. registerTextures rs B0 = Some B \<and> distinct (map Name (Textures B))"
proof (induction rs arbitrary: B0)
  case Nil
  then show ?case by simp
next
  case (Cons r rs)
  obtain N K Stage where r: "r = (N, K, Stage)" by (cases r) auto
  with Cons.prems have st: "Stage \<noteq> HshNoStage" by simp
  from registerTexture_step[OF Cons.prems(1) st, of N K]
  obtain B' where B': "registerTexture N K Stage B0 = Some B'" "distinct (map Name (Textures B'))"
    by blast
  from Cons.IH[OF B'(2)] Cons.prems(2) B'(1) r show ?case by simp
qed

text \<open>
  Claim C10. Whatever sequence of texture registrations has been run from an empty texture
  table (none of them with \<open>HshNoStage\<close>), the table holds no two records with the same name.
  One more registration of a name that is already present leaves the number of records
  unchanged and ORs the bit of the registering stage into the usage mask of the record
  with that name; a name that is not yet present appends one record, whose mask has
  exactly the bit of the registering stage.
\<close>

theorem registerTexture_unique_names:
  assumes "Textures B0 = []"
    and "\<forall>r \<in> set rs. snd (snd r) \<noteq> HshNoStage"
    and "Stage \<noteq> HshNoStage"
  shows "\<exists>B B'. registerTextures rs B0 = Some B \<and> distinct (map Name (Textures B)) \<and>
     registerTexture N K Stage B = Some B' \<and> distinct (map Name (Textures B')) \<and>
     (if N \<in> Name ` set (Textures B)
      then length (Textures B') = length (Textures B) \<and>
           (\<exists>i < length (Textures B). Name (Textures B ! i) = N \<and>
              B' = B\<lparr>Textures := (Textures B)[i := (Textures B ! i)
                      \<lparr>TextureRecord.UseStages :=
                         TextureRecord.UseStages (Textures B ! i) OR stage_bit Stage\<rparr>]\<rparr>)
      else B' = B\<lparr>Textures := Textures B @ [\<lparr>Name = N, Kind = K, UseStages = stage_bit Stage\<rparr>]\<rparr> \<and>
           (\<forall>n. bit (TextureRecord.UseStages (last (Textures B'))) n \<longleftrightarrow> n = stage_idx Stage))"
proof -
  from assms(1) have "distinct (map Name (Textures B0))" by simp
  from registerTextures_distinct[OF this assms(2)]
  obtain B where B: "registerTextures rs B0 = Some B" "distinct (map Name (Textures B))"
    by blast
  from registerTexture_step[OF B(2) assms(3), of N K]
  obtain B' where B': "registerTexture N K Stage B = Some B'" "distinct (map Name (Textures B'))"
    "(if N \<in> Name ` set (Textures B)
      then length (Textures B') = length (Textures B) \<and>
           (\<exists>i < length (Textures B). Name (Textures B ! i) = N \<and>
              B' = B\<lparr>Textures := (Textures B)[i := (Textures B ! i)
                      \<lparr>TextureRecord.UseStages :=
                         TextureRecord.UseStages (Textures B ! i) OR stage_bit Stage\<rparr>]\<rparr>)
      else B' = B\<lparr>Textures := Textures B @ [\<lparr>Name = N, Kind = K, UseStages = stage_bit Stage\<rparr>]\<rparr>)"
    by blast
  show ?thesis
  proof (cases "N \<in> Name ` set (Textures B)")
    case True
    with B B' show ?thesis by auto
  next
    case False
    with B'(3) have eq: "B' = B\<lparr>Textures := Textures B @ [\<lparr>Name = N, Kind = K, UseStages = stage_bit Stage\<rparr>]\<rparr>"
      by simp
    then have "TextureRecord.UseStages (last (Textures B')) = stage_bit Stage" by simp
    with bit_stage_bit[OF assms(3)] B B' False eq show ?thesis by auto
  qed
qed

theorem registerTexture_unique_names_witness:
  "Textures (StagesBuilder_new \<lparr>Diags = [], NextAddr = 0\<rparr> 35) = [] \<and>
   HshFragmentStage \<noteq> HshNoStage \<and> HshVertexStage \<noteq> HshNoStage \<and>
   (\<exists>B B'. registerTextures [(''tex0'', HTK texture2d T_float, HshFragmentStage)]
              (StagesBuilder_new \<lparr>Diags = [], NextAddr = 0\<rparr> 35) = Some B \<and>
            registerTexture ''tex0'' (HTK texture2d T_float) HshVertexStage B = Some B' \<and>
            Textures B = [\<lparr>Name = ''tex0'', Kind = HTK texture2d T_float, UseStages = 32\<rparr>] \<and>
            Textures B' = [\<lparr>Name = ''tex0'', Kind = HTK texture2d T_float, UseStages = 34\<rparr>])"
proof -
  let ?B0 = "StagesBuilder_new \<lparr>Diags = [], NextAddr = 0\<rparr> 35"
  let ?rs = "[(''tex0'', HTK texture2d T_float, HshFragmentStage)]"
  have h1: "Textures ?B0 = []"
    by (simp add: StagesBuilder_new_tables)
  have h2: "\<forall>r \<in> set ?rs. snd (snd r) \<noteq> HshNoStage" by simp
  have h3: "HshVertexStage \<noteq> HshNoStage" by simp
  from registerTexture_unique_names[OF h1 h2 h3, of "''tex0''" "HTK texture2d T_float"]
  obtain B B' where B: "registerTextures ?rs ?B0 = Some B"
    "registerTexture ''tex0'' (HTK texture2d T_float) HshVertexStage B = Some B'"
    by blast
  from B(1) h1 have TB: "Textures B = [\<lparr>Name = ''tex0'', Kind = HTK texture2d T_float, UseStages = 32\<rparr>]"
    by (auto simp: registerTexture_def stage_bit_def split: option.splits)
  from B(2) TB have "Textures B' = [\<lparr>Name = ''tex0'', Kind = HTK texture2d T_float, UseStages = 34\<rparr>]"
    by (auto simp: registerTexture_def stage_bit_def split: option.splits)
  with h1 h3 B TB show ?thesis by simp
qed

section \<open>The sampler table\<close>




lemma registerSampleCall_masks_grow:
  assumes res: "registerSampleCall isConst C B = Some B'"
    and k: "k < length (Samplers B)"
  shows "k < length (Samplers B') \<and> Config (Samplers B' ! k) = Config (Samplers B ! k) \<and>
         (bit (SamplerRecord.UseStages (Samplers B ! k)) n \<longrightarrow>
          bit (SamplerRecord.UseStages (Samplers B' ! k)) n)"
  using res k unfolding registerSampleCall_def
  by (auto simp: Let_def nth_append nth_list_update bit_or_iff ReportCustom_def
      dest: find_if_Some
      split: ExprNode.splits Decl.splits option.splits if_splits prod.splits)




section \<open>Stage inference of binary operations\<close>





section \<open>Reference-counted declaration statements\<close>

lemma stage_idx_inj:
  "A \<noteq> HshNoStage \<Longrightarrow> B \<noteq> HshNoStage \<Longrightarrow> stage_idx A = stage_idx B \<Longrightarrow> A = B"
  by (cases A; cases B) (simp_all add: stage_idx_def)

lemma stage_idx_less: "A \<noteq> HshNoStage \<Longrightarrow> stage_idx A < 6"
  by (cases A) (simp_all add: stage_idx_def)

lemma find_decl_entry_Some:
  assumes "find_decl_entry Orig L = Some i" and "length (Stmts L) = length (StmtDeclRefCount L)"
  shows "i < length (Stmts L) \<and> isa_DeclStmt (Stmts L ! i) \<and> snd (StmtDeclRefCount L ! i) = Orig"
  using find_if_Some[OF assms(1)[unfolded find_decl_entry_def]] assms(2)
  by (auto simp: split_beta)

lemma find_decl_entry_None:
  assumes "find_decl_entry Orig L = None"
  shows "Orig \<notin> set (decl_origins L)"
proof
  assume "Orig \<in> set (decl_origins L)"
  then obtain I where I: "(I, Orig) \<in> set (zip (Stmts L) (map snd (StmtDeclRefCount L)))" "isa_DeclStmt I"
    by (auto simp: decl_origins_def)
  then obtain rc where "(I, rc) \<in> set (zip (Stmts L) (StmtDeclRefCount L))" "snd rc = Orig"
    by (auto simp: zip_map2)
  with assms I(2) show False
    by (auto simp: find_decl_entry_def find_if_None)
qed

lemma decl_origins_count_update:
  assumes "i < length (StmtDeclRefCount L)"
  shows "decl_origins (L\<lparr>StmtDeclRefCount := (StmtDeclRefCount L)[i := (c, snd (StmtDeclRefCount L ! i))]\<rparr>)
         = decl_origins L"
proof -
  have "map snd ((StmtDeclRefCount L)[i := (c, snd (StmtDeclRefCount L ! i))]) = map snd (StmtDeclRefCount L)"
    using assms by (simp add: map_update list_update_same_conv)
  then show ?thesis by (simp add: decl_origins_def)
qed

lemma decl_origins_push:
  assumes "length (Stmts L) = length (StmtDeclRefCount L)"
  shows "decl_origins (L\<lparr>Stmts := Stmts L @ [S], StmtDeclRefCount := StmtDeclRefCount L @ [(c, Orig)]\<rparr>)
         = decl_origins L @ (if isa_DeclStmt S then [Orig] else [])"
  using assms by (simp add: decl_origins_def)

lemma filter_split_nth:
  "i < length xs \<Longrightarrow> P (xs ! i) \<Longrightarrow>
   map f (filter P xs) = map f (filter P (take i xs)) @ f (xs ! i) # map f (filter P (drop (Suc i) xs))"
proof (induction xs arbitrary: i)
  case Nil
  then show ?case by simp
next
  case (Cons x xs)
  then show ?case by (cases i) auto
qed

lemma decl_origins_erase:
  assumes len: "length (Stmts L) = length (StmtDeclRefCount L)"
    and i: "i < length (Stmts L)" and d: "isa_DeclStmt (Stmts L ! i)"
    and ok: "distinct (decl_origins L)"
  shows "distinct (decl_origins (L\<lparr>Stmts := erase_at i (Stmts L),
                                    StmtDeclRefCount := erase_at i (StmtDeclRefCount L)\<rparr>)) \<and>
         snd (StmtDeclRefCount L ! i) \<notin>
           set (decl_origins (L\<lparr>Stmts := erase_at i (Stmts L),
                                  StmtDeclRefCount := erase_at i (StmtDeclRefCount L)\<rparr>))"
proof -
  let ?Z = "zip (Stmts L) (map snd (StmtDeclRefCount L))"
  let ?P = "\<lambda>P. isa_DeclStmt (fst P)"
  have iz: "i < length ?Z" using len i by simp
  have zi: "?Z ! i = (Stmts L ! i, snd (StmtDeclRefCount L ! i))" using len i by simp
  have er: "zip (erase_at i (Stmts L)) (map snd (erase_at i (StmtDeclRefCount L))) = take i ?Z @ drop (Suc i) ?Z"
    using len i by (simp add: erase_at_def take_zip drop_zip take_map drop_map)
  have pz: "?P (?Z ! i)" using zi d by simp
  have "decl_origins L = map snd (filter ?P (take i ?Z)) @ snd (?Z ! i)
                # map snd (filter ?P (drop (Suc i) ?Z))"
    unfolding decl_origins_def
    by (rule filter_split_nth[where P="?P" and xs="?Z" and f=snd, OF iz pz])
  then have "decl_origins L = map snd (filter ?P (take i ?Z)) @ snd (StmtDeclRefCount L ! i)
                # map snd (filter ?P (drop (Suc i) ?Z))"
    by (simp only: zi snd_conv)
  with ok have "distinct (map snd (filter ?P (take i ?Z)) @ map snd (filter ?P (drop (Suc i) ?Z))) \<and>
      snd (StmtDeclRefCount L ! i) \<notin> set (map snd (filter ?P (take i ?Z)) @ map snd (filter ?P (drop (Suc i) ?Z)))"
    by auto
  then show ?thesis
    by (simp add: decl_origins_def er)
qed

lemma addStageStmt_decl:
  assumes len: "length (StageStmts B) = 6"
    and st: "Stage \<noteq> HshNoStage"
    and ok: "\<forall>j < 6. StageStmtList_ok (StageStmts B ! j)"
  shows "\<exists>B1. addStageStmt (DeclStmt a VD Init) Stage Orig B = Some B1 \<and>
     length (StageStmts B1) = 6 \<and>
     (\<forall>j < 6. StageStmtList_ok (StageStmts B1 ! j)) \<and>
     (\<forall>j < 6. j \<noteq> stage_idx Stage \<longrightarrow> StageStmts B1 ! j = StageStmts B ! j) \<and>
     Orig \<in> set (decl_origins (StageStmts B1 ! stage_idx Stage)) \<and>
     (case find_decl_entry Orig (StageStmts B ! stage_idx Stage) of
        Some i \<Rightarrow>
          i < length (Stmts (StageStmts B ! stage_idx Stage)) \<and>
          isa_DeclStmt (Stmts (StageStmts B ! stage_idx Stage) ! i) \<and>
          Stmts (StageStmts B1 ! stage_idx Stage) = Stmts (StageStmts B ! stage_idx Stage) \<and>
          StmtDeclRefCount (StageStmts B1 ! stage_idx Stage) =
            (StmtDeclRefCount (StageStmts B ! stage_idx Stage))
              [i := (fst (StmtDeclRefCount (StageStmts B ! stage_idx Stage) ! i) + 1, Orig)]
      | None \<Rightarrow>
          Stmts (StageStmts B1 ! stage_idx Stage) =
            Stmts (StageStmts B ! stage_idx Stage) @ [DeclStmt a VD Init] \<and>
          StmtDeclRefCount (StageStmts B1 ! stage_idx Stage) =
            StmtDeclRefCount (StageStmts B ! stage_idx Stage) @ [(1, Orig)])"
proof -
  let ?k = "stage_idx Stage"
  let ?L = "StageStmts B ! ?k"
  from st have k: "?k < 6" by (rule stage_idx_less)
  with ok have okL: "StageStmtList_ok ?L" by simp
  then have lenL: "length (Stmts ?L) = length (StmtDeclRefCount ?L)"
    and dL: "distinct (decl_origins ?L)"
    by (simp_all add: StageStmtList_ok_def)
  show ?thesis
  proof (cases "find_decl_entry Orig ?L")
    case None
    let ?L' = "?L\<lparr>Stmts := Stmts ?L @ [DeclStmt a VD Init],
                  StmtDeclRefCount := StmtDeclRefCount ?L @ [(1, Orig)]\<rparr>"
    let ?B1 = "B\<lparr>StageStmts := (StageStmts B)[?k := ?L']\<rparr>"
    have r: "addStageStmt (DeclStmt a VD Init) Stage Orig B = Some ?B1"
      using st None by (simp add: addStageStmt_def Let_def)
    have o': "decl_origins ?L' = decl_origins ?L @ [Orig]"
      using decl_origins_push[OF lenL, where S="DeclStmt a VD Init" and c=1 and Orig=Orig] by simp
    have okL': "StageStmtList_ok ?L'"
      using lenL dL find_decl_entry_None[OF None] by (simp add: StageStmtList_ok_def o')
    have at: "StageStmts ?B1 ! ?k = ?L'" using k len by simp
    have oth: "\<forall>j < 6. j \<noteq> ?k \<longrightarrow> StageStmts ?B1 ! j = StageStmts B ! j" by simp
    have allok: "\<forall>j < 6. StageStmtList_ok (StageStmts ?B1 ! j)"
    proof (intro allI impI)
      fix j :: nat assume "j < 6"
      with ok okL' at oth show "StageStmtList_ok (StageStmts ?B1 ! j)"
        by (cases "j = ?k") auto
    qed
    from r len allok oth at o' None show ?thesis
      by (intro exI[of _ ?B1]) simp
  next
    case (Some i)
    from find_decl_entry_Some[OF Some lenL]
    have i: "i < length (Stmts ?L)" "isa_DeclStmt (Stmts ?L ! i)" "snd (StmtDeclRefCount ?L ! i) = Orig"
      by auto
    let ?L' = "?L\<lparr>StmtDeclRefCount := (StmtDeclRefCount ?L)
                 [i := (fst (StmtDeclRefCount ?L ! i) + 1, snd (StmtDeclRefCount ?L ! i))]\<rparr>"
    let ?B1 = "B\<lparr>StageStmts := (StageStmts B)[?k := ?L']\<rparr>"
    have r: "addStageStmt (DeclStmt a VD Init) Stage Orig B = Some ?B1"
      using st Some by (simp add: addStageStmt_def Let_def)
    have o': "decl_origins ?L' = decl_origins ?L"
      using decl_origins_count_update[of i ?L] i lenL by simp
    have okL': "StageStmtList_ok ?L'"
      using lenL dL by (simp add: StageStmtList_ok_def o')
    have at: "StageStmts ?B1 ! ?k = ?L'" using k len by simp
    have oth: "\<forall>j < 6. j \<noteq> ?k \<longrightarrow> StageStmts ?B1 ! j = StageStmts B ! j" by simp
    have allok: "\<forall>j < 6. StageStmtList_ok (StageStmts ?B1 ! j)"
    proof (intro allI impI)
      fix j :: nat assume "j < 6"
      with ok okL' at oth show "StageStmtList_ok (StageStmts ?B1 ! j)"
        by (cases "j = ?k") auto
    qed
    have mem: "Orig \<in> set (decl_origins ?L)"
    proof -
      have "(Stmts ?L ! i, Orig) \<in> set (zip (Stmts ?L) (map snd (StmtDeclRefCount ?L)))"
        using i lenL by (auto simp: set_zip intro!: exI[of _ i])
      with i(2) show ?thesis by (force simp: decl_origins_def)
    qed
    from r len allok oth at o' Some i mem show ?thesis
      by (intro exI[of _ ?B1]) simp
  qed
qed

lemma liftDeclStmt_from:
  assumes len: "length (StageStmts B1) = 6"
    and st: "From \<noteq> HshNoStage"
    and ok: "\<forall>j < 6. StageStmtList_ok (StageStmts B1 ! j)"
  shows "\<exists>B2.
     (if From = HshNoStage then None
      else
        (let L = StageStmts B1 ! stage_idx From
         in case find_decl_entry Orig L of
              None \<Rightarrow> Some B1
            | Some i \<Rightarrow>
                (let c = fst (StmtDeclRefCount L ! i) - 1
                 in if c = 0 then
                      Some (B1\<lparr>StageStmts := (StageStmts B1)[stage_idx From :=
                              L\<lparr>Stmts := erase_at i (Stmts L),
                                StmtDeclRefCount := erase_at i (StmtDeclRefCount L)\<rparr>]\<rparr>)
                    else
                      Some (B1\<lparr>StageStmts := (StageStmts B1)[stage_idx From :=
                              L\<lparr>StmtDeclRefCount := (StmtDeclRefCount L)[i :=
                                   (c, snd (StmtDeclRefCount L ! i))]\<rparr>]\<rparr>)))) = Some B2 \<and>
     length (StageStmts B2) = 6 \<and>
     (\<forall>j < 6. StageStmtList_ok (StageStmts B2 ! j)) \<and>
     (\<forall>j < 6. j \<noteq> stage_idx From \<longrightarrow> StageStmts B2 ! j = StageStmts B1 ! j) \<and>
     (case find_decl_entry Orig (StageStmts B1 ! stage_idx From) of
        None \<Rightarrow> StageStmts B2 ! stage_idx From = StageStmts B1 ! stage_idx From
      | Some i \<Rightarrow>
          i < length (Stmts (StageStmts B1 ! stage_idx From)) \<and>
          isa_DeclStmt (Stmts (StageStmts B1 ! stage_idx From) ! i) \<and>
          (if fst (StmtDeclRefCount (StageStmts B1 ! stage_idx From) ! i) = 1 then
             Stmts (StageStmts B2 ! stage_idx From) =
               erase_at i (Stmts (StageStmts B1 ! stage_idx From)) \<and>
             StmtDeclRefCount (StageStmts B2 ! stage_idx From) =
               erase_at i (StmtDeclRefCount (StageStmts B1 ! stage_idx From)) \<and>
             Orig \<notin> set (decl_origins (StageStmts B2 ! stage_idx From))
           else
             Stmts (StageStmts B2 ! stage_idx From) = Stmts (StageStmts B1 ! stage_idx From) \<and>
             StmtDeclRefCount (StageStmts B2 ! stage_idx From) =
               (StmtDeclRefCount (StageStmts B1 ! stage_idx From))
                 [i := (fst (StmtDeclRefCount (StageStmts B1 ! stage_idx From) ! i) - 1, Orig)] \<and>
             Orig \<in> set (decl_origins (StageStmts B2 ! stage_idx From))))"
proof -
  let ?k = "stage_idx From"
  let ?L = "StageStmts B1 ! ?k"
  from st have k: "?k < 6" by (rule stage_idx_less)
  with ok have okL: "StageStmtList_ok ?L" by simp
  then have lenL: "length (Stmts ?L) = length (StmtDeclRefCount ?L)"
    and dL: "distinct (decl_origins ?L)"
    by (simp_all add: StageStmtList_ok_def)
  have allok: "\<forall>j < 6. StageStmtList_ok ((StageStmts B1)[?k := L'] ! j)" if "StageStmtList_ok L'" for L'
  proof (intro allI impI)
    fix j :: nat assume "j < 6"
    with ok that k len show "StageStmtList_ok ((StageStmts B1)[?k := L'] ! j)"
      by (cases "j = ?k") auto
  qed
  show ?thesis
  proof (cases "find_decl_entry Orig ?L")
    case None
    with st len ok show ?thesis by (simp add: Let_def)
  next
    case (Some i)
    from find_decl_entry_Some[OF Some lenL]
    have i: "i < length (Stmts ?L)" "isa_DeclStmt (Stmts ?L ! i)" "snd (StmtDeclRefCount ?L ! i) = Orig"
      by auto
    have c1: "fst (StmtDeclRefCount ?L ! i) - 1 = 0 \<longleftrightarrow> fst (StmtDeclRefCount ?L ! i) = 1"
      by auto
    show ?thesis
    proof (cases "fst (StmtDeclRefCount ?L ! i) = 1")
      case True
      let ?L' = "?L\<lparr>Stmts := erase_at i (Stmts ?L), StmtDeclRefCount := erase_at i (StmtDeclRefCount ?L)\<rparr>"
      from decl_origins_erase[OF lenL i(1) i(2) dL] i(3)
      have e: "distinct (decl_origins ?L')" "Orig \<notin> set (decl_origins ?L')" by auto
      have "length (Stmts ?L') = length (StmtDeclRefCount ?L')"
        using lenL i(1) by (simp add: erase_at_def)
      with e have okL': "StageStmtList_ok ?L'" by (simp add: StageStmtList_ok_def)
      from st Some True c1 len k i e allok[OF okL'] show ?thesis
        by (simp add: Let_def)
    next
      case False
      let ?L' = "?L\<lparr>StmtDeclRefCount := (StmtDeclRefCount ?L)
                 [i := (fst (StmtDeclRefCount ?L ! i) - 1, snd (StmtDeclRefCount ?L ! i))]\<rparr>"
      have o': "decl_origins ?L' = decl_origins ?L"
        using decl_origins_count_update[of i ?L] i lenL by simp
      have okL': "StageStmtList_ok ?L'"
        using lenL dL by (simp add: StageStmtList_ok_def o')
      have mem: "Orig \<in> set (decl_origins ?L)"
      proof -
        have "(Stmts ?L ! i, Orig) \<in> set (zip (Stmts ?L) (map snd (StmtDeclRefCount ?L)))"
          using i lenL by (auto simp: set_zip intro!: exI[of _ i])
        with i(2) show ?thesis by (force simp: decl_origins_def)
      qed
      from st Some False c1 len k i o' mem allok[OF okL'] show ?thesis
        by (simp add: Let_def)
    qed
  qed
qed

text \<open>
  Claim C9. On well-formed statement lists (the two vectors of each stage have the same
  length, and no stage holds two declaration statements of the same originating
  variable), adding a declaration statement to a stage keeps them well-formed: if the
  stage already holds a declaration statement of that originating variable, the
  statements stay as they are and only that entry's reference count goes up by one;
  otherwise the statement is appended with count one. Lifting it from \<open>From\<close> to another
  stage \<open>To\<close> adds it to \<open>To\<close> in this way and then takes one reference from the entry of
  that variable in \<open>From\<close>: the entry is erased exactly when its count was one (it reaches
  zero), and otherwise stays with its count lowered by one. No other stage changes.
\<close>

theorem decl_reference_counts:
  assumes len: "length (StageStmts B) = 6"
    and ok: "list_all StageStmtList_ok (StageStmts B)"
    and sf: "From \<noteq> HshNoStage" and stt: "To \<noteq> HshNoStage" and ne: "From \<noteq> To"
  shows "\<exists>B1 B2.
     addStageStmt (DeclStmt a VD Init) To Orig B = Some B1 \<and>
     list_all StageStmtList_ok (StageStmts B1) \<and>
     (\<forall>j < 6. j \<noteq> stage_idx To \<longrightarrow> StageStmts B1 ! j = StageStmts B ! j) \<and>
     Orig \<in> set (decl_origins (StageStmts B1 ! stage_idx To)) \<and>
     (case find_decl_entry Orig (StageStmts B ! stage_idx To) of
        Some i \<Rightarrow>
          Stmts (StageStmts B1 ! stage_idx To) = Stmts (StageStmts B ! stage_idx To) \<and>
          StmtDeclRefCount (StageStmts B1 ! stage_idx To) =
            (StmtDeclRefCount (StageStmts B ! stage_idx To))
              [i := (fst (StmtDeclRefCount (StageStmts B ! stage_idx To) ! i) + 1, Orig)]
      | None \<Rightarrow>
          Stmts (StageStmts B1 ! stage_idx To) =
            Stmts (StageStmts B ! stage_idx To) @ [DeclStmt a VD Init] \<and>
          StmtDeclRefCount (StageStmts B1 ! stage_idx To) =
            StmtDeclRefCount (StageStmts B ! stage_idx To) @ [(1, Orig)]) \<and>
     liftDeclStmt a VD Init From To Orig B = Some B2 \<and>
     list_all StageStmtList_ok (StageStmts B2) \<and>
     (\<forall>j < 6. j \<noteq> stage_idx From \<longrightarrow> StageStmts B2 ! j = StageStmts B1 ! j) \<and>
     (case find_decl_entry Orig (StageStmts B ! stage_idx From) of
        None \<Rightarrow> StageStmts B2 ! stage_idx From = StageStmts B ! stage_idx From
      | Some i \<Rightarrow>
          (if fst (StmtDeclRefCount (StageStmts B ! stage_idx From) ! i) = 1 then
             Stmts (StageStmts B2 ! stage_idx From) =
               erase_at i (Stmts (StageStmts B ! stage_idx From)) \<and>
             StmtDeclRefCount (StageStmts B2 ! stage_idx From) =
               erase_at i (StmtDeclRefCount (StageStmts B ! stage_idx From)) \<and>
             Orig \<notin> set (decl_origins (StageStmts B2 ! stage_idx From))
           else
             Stmts (StageStmts B2 ! stage_idx From) = Stmts (StageStmts B ! stage_idx From) \<and>
             StmtDeclRefCount (StageStmts B2 ! stage_idx From) =
               (StmtDeclRefCount (StageStmts B ! stage_idx From))
                 [i := (fst (StmtDeclRefCount (StageStmts B ! stage_idx From) ! i) - 1, Orig)] \<and>
             Orig \<in> set (decl_origins (StageStmts B2 ! stage_idx From))))"
proof -
  from ok len have ok0: "\<forall>j < 6. StageStmtList_ok (StageStmts B ! j)"
    by (simp add: list_all_length)
  from addStageStmt_decl[OF len stt ok0, of a VD Init Orig]
  obtain B1 where a1: "addStageStmt (DeclStmt a VD Init) To Orig B = Some B1"
    and l1: "length (StageStmts B1) = 6"
    and ok1: "\<forall>j < 6. StageStmtList_ok (StageStmts B1 ! j)"
    and oth1: "\<forall>j < 6. j \<noteq> stage_idx To \<longrightarrow> StageStmts B1 ! j = StageStmts B ! j"
    and mem1: "Orig \<in> set (decl_origins (StageStmts B1 ! stage_idx To))"
    and ch1: "(case find_decl_entry Orig (StageStmts B ! stage_idx To) of
        Some i \<Rightarrow>
          i < length (Stmts (StageStmts B ! stage_idx To)) \<and>
          isa_DeclStmt (Stmts (StageStmts B ! stage_idx To) ! i) \<and>
          Stmts (StageStmts B1 ! stage_idx To) = Stmts (StageStmts B ! stage_idx To) \<and>
          StmtDeclRefCount (StageStmts B1 ! stage_idx To) =
            (StmtDeclRefCount (StageStmts B ! stage_idx To))
              [i := (fst (StmtDeclRefCount (StageStmts B ! stage_idx To) ! i) + 1, Orig)]
      | None \<Rightarrow>
          Stmts (StageStmts B1 ! stage_idx To) =
            Stmts (StageStmts B ! stage_idx To) @ [DeclStmt a VD Init] \<and>
          StmtDeclRefCount (StageStmts B1 ! stage_idx To) =
            StmtDeclRefCount (StageStmts B ! stage_idx To) @ [(1, Orig)])"
    by blast
  have kf: "stage_idx From < 6" using sf by (rule stage_idx_less)
  have kne: "stage_idx From \<noteq> stage_idx To"
    using stage_idx_inj[OF sf stt] ne by blast
  from oth1 kf kne have same: "StageStmts B1 ! stage_idx From = StageStmts B ! stage_idx From"
    by simp
  from liftDeclStmt_from[OF l1 sf ok1, of Orig]
  obtain B2 where a2: "liftDeclStmt a VD Init From To Orig B = Some B2"
    and l2: "length (StageStmts B2) = 6"
    and ok2: "\<forall>j < 6. StageStmtList_ok (StageStmts B2 ! j)"
    and oth2: "\<forall>j < 6. j \<noteq> stage_idx From \<longrightarrow> StageStmts B2 ! j = StageStmts B1 ! j"
    and ch2: "(case find_decl_entry Orig (StageStmts B1 ! stage_idx From) of
        None \<Rightarrow> StageStmts B2 ! stage_idx From = StageStmts B1 ! stage_idx From
      | Some i \<Rightarrow>
          i < length (Stmts (StageStmts B1 ! stage_idx From)) \<and>
          isa_DeclStmt (Stmts (StageStmts B1 ! stage_idx From) ! i) \<and>
          (if fst (StmtDeclRefCount (StageStmts B1 ! stage_idx From) ! i) = 1 then
             Stmts (StageStmts B2 ! stage_idx From) =
               erase_at i (Stmts (StageStmts B1 ! stage_idx From)) \<and>
             StmtDeclRefCount (StageStmts B2 ! stage_idx From) =
               erase_at i (StmtDeclRefCount (StageStmts B1 ! stage_idx From)) \<and>
             Orig \<notin> set (decl_origins (StageStmts B2 ! stage_idx From))
           else
             Stmts (StageStmts B2 ! stage_idx From) = Stmts (StageStmts B1 ! stage_idx From) \<and>
             StmtDeclRefCount (StageStmts B2 ! stage_idx From) =
               (StmtDeclRefCount (StageStmts B1 ! stage_idx From))
                 [i := (fst (StmtDeclRefCount (StageStmts B1 ! stage_idx From) ! i) - 1, Orig)] \<and>
             Orig \<in> set (decl_origins (StageStmts B2 ! stage_idx From))))"
    unfolding liftDeclStmt_def a1 by (auto simp: Let_def)
  from ch1 have ch1': "(case find_decl_entry Orig (StageStmts B ! stage_idx To) of
        Some i \<Rightarrow>
          Stmts (StageStmts B1 ! stage_idx To) = Stmts (StageStmts B ! stage_idx To) \<and>
          StmtDeclRefCount (StageStmts B1 ! stage_idx To) =
            (StmtDeclRefCount (StageStmts B ! stage_idx To))
              [i := (fst (StmtDeclRefCount (StageStmts B ! stage_idx To) ! i) + 1, Orig)]
      | None \<Rightarrow>
          Stmts (StageStmts B1 ! stage_idx To) =
            Stmts (StageStmts B ! stage_idx To) @ [DeclStmt a VD Init] \<and>
          StmtDeclRefCount (StageStmts B1 ! stage_idx To) =
            StmtDeclRefCount (StageStmts B ! stage_idx To) @ [(1, Orig)])"
    by (auto split: option.splits)
  from ch2 have ch2': "(case find_decl_entry Orig (StageStmts B ! stage_idx From) of
        None \<Rightarrow> StageStmts B2 ! stage_idx From = StageStmts B ! stage_idx From
      | Some i \<Rightarrow>
          (if fst (StmtDeclRefCount (StageStmts B ! stage_idx From) ! i) = 1 then
             Stmts (StageStmts B2 ! stage_idx From) =
               erase_at i (Stmts (StageStmts B ! stage_idx From)) \<and>
             StmtDeclRefCount (StageStmts B2 ! stage_idx From) =
               erase_at i (StmtDeclRefCount (StageStmts B ! stage_idx From)) \<and>
             Orig \<notin> set (decl_origins (StageStmts B2 ! stage_idx From))
           else
             Stmts (StageStmts B2 ! stage_idx From) = Stmts (StageStmts B ! stage_idx From) \<and>
             StmtDeclRefCount (StageStmts B2 ! stage_idx From) =
               (StmtDeclRefCount (StageStmts B ! stage_idx From))
                 [i := (fst (StmtDeclRefCount (StageStmts B ! stage_idx From) ! i) - 1, Orig)] \<and>
             Orig \<in> set (decl_origins (StageStmts B2 ! stage_idx From))))"
    unfolding same by (auto split: option.splits if_splits)
  from ok1 l1 have ok1': "list_all StageStmtList_ok (StageStmts B1)"
    by (simp add: list_all_length)
  from ok2 l2 have ok2': "list_all StageStmtList_ok (StageStmts B2)"
    by (simp add: list_all_length)
  from a1 ok1' oth1 mem1 ch1' a2 ok2' oth2 ch2' show ?thesis
    by blast
qed

theorem decl_reference_counts_witness:
  "let f3 = QualType (HBT_Vector float3) False 0 False None;
       x = VarDecl 40 ''x'' f3;
       once = \<lparr>Stmts = [DeclStmt 50 x None], StmtDeclRefCount = [(1, Some 7)]\<rparr>;
       twice = \<lparr>Stmts = [DeclStmt 50 x None], StmtDeclRefCount = [(2, Some 7)]\<rparr>;
       B = StagesBuilder_new \<lparr>Diags = [], NextAddr = 0\<rparr> 35;
       Bonce = B\<lparr>StageStmts := (StageStmts B)[1 := once]\<rparr>;
       Btwice = B\<lparr>StageStmts := (StageStmts B)[1 := twice]\<rparr>
   in (\<exists>B2. liftDeclStmt 60 x None HshVertexStage HshFragmentStage (Some 7) Bonce = Some B2 \<and>
             Stmts (StageStmts B2 ! 1) = [] \<and> StmtDeclRefCount (StageStmts B2 ! 1) = [] \<and>
             Stmts (StageStmts B2 ! 5) = [DeclStmt 60 x None] \<and>
             StmtDeclRefCount (StageStmts B2 ! 5) = [(1, Some 7)]) \<and>
      (\<exists>B2. liftDeclStmt 60 x None HshVertexStage HshFragmentStage (Some 7) Btwice = Some B2 \<and>
             Stmts (StageStmts B2 ! 1) = [DeclStmt 50 x None] \<and>
             StmtDeclRefCount (StageStmts B2 ! 1) = [(1, Some 7)] \<and>
             Stmts (StageStmts B2 ! 5) = [DeclStmt 60 x None]) \<and>
      (\<exists>B1. addStageStmt (DeclStmt 60 x None) HshVertexStage (Some 7) Bonce = Some B1 \<and>
             Stmts (StageStmts B1 ! 1) = [DeclStmt 50 x None] \<and>
             StmtDeclRefCount (StageStmts B1 ! 1) = [(2, Some 7)])"
proof -
  define f3 where "f3 = QualType (HBT_Vector float3) False 0 False None"
  define x where "x = VarDecl 40 ''x'' f3"
  define once where "once = \<lparr>Stmts = [DeclStmt 50 x None], StmtDeclRefCount = [(1::32 word, Some (7::nat))]\<rparr>"
  define twice where "twice = \<lparr>Stmts = [DeclStmt 50 x None], StmtDeclRefCount = [(2::32 word, Some (7::nat))]\<rparr>"
  define B where "B = StagesBuilder_new \<lparr>Diags = [], NextAddr = 0\<rparr> 35"
  define Bonce where "Bonce = B\<lparr>StageStmts := (StageStmts B)[1 := once]\<rparr>"
  define Btwice where "Btwice = B\<lparr>StageStmts := (StageStmts B)[1 := twice]\<rparr>"
  let ?e = "\<lparr>Stmts = [], StmtDeclRefCount = []\<rparr> :: StageStmtList"
  have so: "StageStmts Bonce = [?e, once, ?e, ?e, ?e, ?e]"
    by (simp add: Bonce_def B_def StagesBuilder_new_tables numeral_eq_Suc)
  have stw: "StageStmts Btwice = [?e, twice, ?e, ?e, ?e, ?e]"
    by (simp add: Btwice_def B_def StagesBuilder_new_tables numeral_eq_Suc)
  have oke: "StageStmtList_ok ?e" "StageStmtList_ok once" "StageStmtList_ok twice"
    by (simp_all add: StageStmtList_ok_def decl_origins_def once_def twice_def)
  have l1: "length (StageStmts Bonce) = 6" and l2: "length (StageStmts Btwice) = 6"
    by (simp_all add: so stw)
  have k1: "list_all StageStmtList_ok (StageStmts Bonce)"
    and k2: "list_all StageStmtList_ok (StageStmts Btwice)"
    by (simp_all add: so stw oke)
  have s: "HshVertexStage \<noteq> HshNoStage" "HshFragmentStage \<noteq> HshNoStage"
    "HshVertexStage \<noteq> HshFragmentStage" "HshFragmentStage \<noteq> HshVertexStage"
    by simp_all
  have idx: "stage_idx HshVertexStage = 1" "stage_idx HshFragmentStage = 5"
    by (simp_all add: stage_idx_def)
  have f1: "find_decl_entry (Some 7) once = Some 0" "find_decl_entry (Some 7) twice = Some 0"
    "find_decl_entry (Some 7) ?e = None"
    by (simp_all add: find_decl_entry_def once_def twice_def)
  have fo: "Stmts once = [DeclStmt 50 x None]" "StmtDeclRefCount once = [(1, Some 7)]"
    "Stmts twice = [DeclStmt 50 x None]" "StmtDeclRefCount twice = [(2, Some 7)]"
    by (simp_all add: once_def twice_def)
  have p1: "\<exists>B2. liftDeclStmt 60 x None HshVertexStage HshFragmentStage (Some 7) Bonce = Some B2 \<and>
             Stmts (StageStmts B2 ! 1) = [] \<and> StmtDeclRefCount (StageStmts B2 ! 1) = [] \<and>
             Stmts (StageStmts B2 ! 5) = [DeclStmt 60 x None] \<and>
             StmtDeclRefCount (StageStmts B2 ! 5) = [(1, Some 7)]"
    using decl_reference_counts[OF l1 k1 s(1) s(2) s(3), of 60 x None "Some 7"]
    by (auto simp: idx so f1 fo erase_at_def)
  have p2: "\<exists>B2. liftDeclStmt 60 x None HshVertexStage HshFragmentStage (Some 7) Btwice = Some B2 \<and>
             Stmts (StageStmts B2 ! 1) = [DeclStmt 50 x None] \<and>
             StmtDeclRefCount (StageStmts B2 ! 1) = [(1, Some 7)] \<and>
             Stmts (StageStmts B2 ! 5) = [DeclStmt 60 x None]"
    using decl_reference_counts[OF l2 k2 s(1) s(2) s(3), of 60 x None "Some 7"]
    by (auto simp: idx stw f1 fo erase_at_def)
  have p3: "\<exists>B1. addStageStmt (DeclStmt 60 x None) HshVertexStage (Some 7) Bonce = Some B1 \<and>
             Stmts (StageStmts B1 ! 1) = [DeclStmt 50 x None] \<and>
             StmtDeclRefCount (StageStmts B1 ! 1) = [(2, Some 7)]"
    using decl_reference_counts[OF l1 k1 s(2) s(1) s(4), of 60 x None "Some 7"]
    by (auto simp: idx so f1 fo)
  from p1 p2 p3 show ?thesis
    unfolding Let_def Bonce_def Btwice_def B_def once_def twice_def x_def f3_def by blast
qed

section \<open>Parameter checks\<close>

lemma Diags_ReportCustom [simp]:
  "Diags (ReportCustom S m l ctx) = Diags ctx @ [Diag l m S]"
  by (simp add: ReportCustom_def)














section \<open>Emission of the compiled stages\<close>



lemma ref_hashes_bindings [simp]:
  "ref_hashes (map VertexBindingEntry ns) = []" "ref_hashes (map VertexAttributeEntry ns) = []"
  by (induction ns) simp_all









section \<open>Structural reuse of interface fields\<close>



section \<open>References within one stage\<close>









section \<open>Promotion of a value across stages\<close>

lemma isSameComparisonOperand_refl [simp]: "isSameComparisonOperand E E"
  by (simp add: isSameComparisonOperand_def)

lemma has_field_Fields: "Fields R' = Fields R @ [(E, F)] \<Longrightarrow> has_field R' E"
  by (simp add: has_field_def)

lemma createProducerFieldReference_existing:
  "has_field R E \<Longrightarrow> createProducerFieldReference E R ctx = Some (None, R, ctx)"
  by (simp add: createProducerFieldReference_def createFieldReference_def
        getFieldForExpr_existing)

lemma createProducerFieldReference_new:
  assumes "\<not> has_field R E" and "record_ready R"
  shows "\<exists>F P R' ctx'. createProducerFieldReference E R ctx = Some (Some P, R', ctx') \<and>
           Fields R' = Fields R @ [(E, F)] \<and> record_ready R' \<and>
           Producer R' = Producer R \<and> Consumer R' = Consumer R \<and>
           field_reference (Producer R') F E P \<and>
           NextAddr ctx \<le> NextAddr ctx'"
proof -
  from assms(2) obtain RD V where rd: "Record R = Some RD" "Producer R = Some V"
    by (auto simp: record_ready_def)
  show ?thesis
    using assms(2)
    by (simp add: createProducerFieldReference_def createFieldReference_def
          getFieldForExpr_new[OF assms(1) rd(1)] rd alloc_def Let_def record_ready_def
          field_reference_def)
qed

lemma createConsumerFieldReference_existing:
  assumes "has_field R E" and "record_ready R"
  shows "\<exists>G X ctx'. createConsumerFieldReference E R ctx = Some (Some X, R, ctx') \<and>
           field_for R E = Some G \<and> field_reference (Consumer R) G E X \<and>
           NextAddr ctx \<le> NextAddr ctx'"
proof -
  from assms(2) obtain V where v: "Consumer R = Some V"
    by (auto simp: record_ready_def)
  from field_for_Some[OF assms(1)] obtain G where g: "field_for R E = Some G" by blast
  show ?thesis
    by (simp add: createConsumerFieldReference_def createFieldReference_def
          getFieldForExpr_existing[OF assms(1)] g v alloc_def Let_def field_reference_def)
qed

lemma addStageStmt_new_expr:
  assumes "Stage \<noteq> HshNoStage"
    and "\<forall>ES \<in> set (Stmts (StageStmts B ! stage_idx Stage)). stmt_addr ES \<noteq> expr_addr X"
  shows "addStageStmt (ExprStmt X) Stage None B =
           Some (B\<lparr>StageStmts := (StageStmts B)[stage_idx Stage :=
                    (StageStmts B ! stage_idx Stage)
                      \<lparr>Stmts := Stmts (StageStmts B ! stage_idx Stage) @ [ExprStmt X],
                       StmtDeclRefCount :=
                         StmtDeclRefCount (StageStmts B ! stage_idx Stage) @ [(1, None)]\<rparr>]\<rparr>)"
  using assms by (simp add: addStageStmt_def Let_def)

lemma stage_idx_neq: "A \<noteq> HshNoStage \<Longrightarrow> B \<noteq> HshNoStage \<Longrightarrow> A \<noteq> B \<Longrightarrow> stage_idx A \<noteq> stage_idx B"
  using stage_idx_inj by blast

lemma stmts_allocatedD:
  "stmts_allocated B \<Longrightarrow> i < length (StageStmts B) \<Longrightarrow> X \<in> set (Stmts (StageStmts B ! i))
     \<Longrightarrow> stmt_addr X < NextAddr (Context B)"
  by (auto simp: stmts_allocated_def)

lemma stmts_allocated_push:
  assumes "stmts_allocated B" and "NextAddr (Context B) \<le> NextAddr (Context B')"
    and "stmt_addr X < NextAddr (Context B')" and "i < length (StageStmts B)"
    and "StageStmts B' = (StageStmts B)[i := (StageStmts B ! i)
               \<lparr>Stmts := Stmts (StageStmts B ! i) @ [X], StmtDeclRefCount := C\<rparr>]"
  shows "stmts_allocated B'"
  unfolding stmts_allocated_def
proof (intro ballI)
  fix L Y
  assume L: "L \<in> set (StageStmts B')" and Y: "Y \<in> set (Stmts L)"
  from L have "L \<in> set (StageStmts B) \<or>
       L = (StageStmts B ! i)\<lparr>Stmts := Stmts (StageStmts B ! i) @ [X], StmtDeclRefCount := C\<rparr>"
    unfolding assms(5) using set_update_subset_insert[of "StageStmts B" i] by auto
  then show "stmt_addr Y < NextAddr (Context B')"
  proof
    assume "L \<in> set (StageStmts B)"
    with assms(1) Y have "stmt_addr Y < NextAddr (Context B)" by (auto simp: stmts_allocated_def)
    with assms(2) show ?thesis by simp
  next
    assume l: "L = (StageStmts B ! i)\<lparr>Stmts := Stmts (StageStmts B ! i) @ [X], StmtDeclRefCount := C\<rparr>"
    with Y have "Y \<in> set (Stmts (StageStmts B ! i)) \<or> Y = X" by auto
    then show ?thesis
    proof
      assume "Y \<in> set (Stmts (StageStmts B ! i))"
      from stmts_allocatedD[OF assms(1,4) this] assms(2) show ?thesis by simp
    qed (simp add: assms(3))
  qed
qed

lemma hop_resultI_existing:
  "has_field (Rs ! stage_idx D) E \<Longrightarrow> Rs' ! stage_idx D = Rs ! stage_idx D
     \<Longrightarrow> Ls' ! stage_idx S = Ls ! stage_idx S \<Longrightarrow> hop_result E From Rs Rs' Ls Ls' (S, D)"
  by (simp add: hop_result_def)

lemma VisitExpr_hop_result:
  assumes D: "D \<noteq> HshNoStage" and S: "S \<noteq> HshNoStage" and SD: "S \<noteq> D"
    and len: "length (InterStageRecords B) = 6" "length (StageStmts B) = 6"
    and rD: "record_ready (InterStageRecords B ! stage_idx D)"
    and rS: "S \<noteq> From \<Longrightarrow> record_ready (InterStageRecords B ! stage_idx S) \<and>
                              has_field (InterStageRecords B ! stage_idx S) E"
    and al: "stmts_allocated B"
  shows "\<exists>B1. VisitExpr_hop E From S D B = Some B1 \<and>
           hop_result E From (InterStageRecords B) (InterStageRecords B1)
             (StageStmts B) (StageStmts B1) (S, D) \<and>
           (\<forall>i. i \<noteq> stage_idx D \<longrightarrow> InterStageRecords B1 ! i = InterStageRecords B ! i) \<and>
           (\<forall>i. i \<noteq> stage_idx S \<longrightarrow> StageStmts B1 ! i = StageStmts B ! i) \<and>
           length (InterStageRecords B1) = 6 \<and> length (StageStmts B1) = 6 \<and>
           record_ready (InterStageRecords B1 ! stage_idx D) \<and>
           has_field (InterStageRecords B1 ! stage_idx D) E \<and>
           stmts_allocated B1 \<and> UseStages B1 = UseStages B \<and>
           HostToStageRecords B1 = HostToStageRecords B"
proof (cases "has_field (InterStageRecords B ! stage_idx D) E")
  case True
  have "VisitExpr_hop E From S D B = Some B"
    by (simp add: VisitExpr_hop_def createProducerFieldReference_existing[OF True])
  then show ?thesis
    using True rD al len by (simp add: hop_resultI_existing)
next
  case False
  define R where "R = InterStageRecords B ! stage_idx D"
  define L where "L = StageStmts B ! stage_idx S"
  have iD: "stage_idx D < 6" and iS: "stage_idx S < 6" and ne: "stage_idx S \<noteq> stage_idx D"
    using D S SD by (simp_all add: stage_idx_less stage_idx_neq)
  from createProducerFieldReference_new[OF False rD, of "Context B"]
  obtain F P R' ctx1 where
    p: "createProducerFieldReference E R (Context B) = Some (Some P, R', ctx1)"
       "Fields R' = Fields R @ [(E, F)]" "record_ready R'"
       "field_reference (Producer R') F E P" "NextAddr (Context B) \<le> NextAddr ctx1"
    unfolding R_def by blast
  define B1 where "B1 = B\<lparr>InterStageRecords := (InterStageRecords B)[stage_idx D := R'],
                          Context := ctx1\<rparr>"
  have B1S: "InterStageRecords B1 ! stage_idx S = InterStageRecords B ! stage_idx S"
    using ne by (simp add: B1_def)
  define rhsx where "rhsx = (if S = From then Some (Some E, B1)
                      else
                        (case createConsumerFieldReference E
                                (InterStageRecords B1 ! stage_idx S) (Context B1) of
                           None \<Rightarrow> None
                         | Some (R, SRecord, ctx2) \<Rightarrow>
                             Some (R, B1\<lparr>InterStageRecords :=
                                          (InterStageRecords B1)[stage_idx S := SRecord],
                                        Context := ctx2\<rparr>)))"
  have "\<exists>RHS ctx2. rhsx
                   = Some (Some RHS, B1\<lparr>Context := ctx2\<rparr>) \<and>
          NextAddr ctx1 \<le> NextAddr ctx2 \<and>
          (if S = From then RHS = E
           else (\<exists>G. field_for (InterStageRecords B ! stage_idx S) E = Some G \<and>
                   field_reference (Consumer (InterStageRecords B ! stage_idx S)) G E RHS))"
  proof (cases "S = From")
    case True
    then show ?thesis
      by (intro exI[of _ E] exI[of _ ctx1]) (simp add: rhsx_def B1_def)
  next
    case False
    from rS[OF False] have rs: "record_ready (InterStageRecords B ! stage_idx S)"
      "has_field (InterStageRecords B ! stage_idx S) E" by simp_all
    from createConsumerFieldReference_existing[OF rs(2,1), of ctx1]
    obtain G X ctx2 where
      c: "createConsumerFieldReference E (InterStageRecords B ! stage_idx S) ctx1
            = Some (Some X, InterStageRecords B ! stage_idx S, ctx2)"
         "field_for (InterStageRecords B ! stage_idx S) E = Some G"
         "field_reference (Consumer (InterStageRecords B ! stage_idx S)) G E X"
         "NextAddr ctx1 \<le> NextAddr ctx2"
      by blast
    have ctx: "Context B1 = ctx1" by (simp add: B1_def)
    have upd: "(InterStageRecords B1)[stage_idx S := InterStageRecords B ! stage_idx S]
                 = InterStageRecords B1"
      using B1S by (metis list_update_id)
    show ?thesis
      using False c
      by (intro exI[of _ X] exI[of _ ctx2]) (simp add: rhsx_def B1S ctx upd)
  qed
  then obtain RHS ctx2 where
    rhs: "rhsx
                   = Some (Some RHS, B1\<lparr>Context := ctx2\<rparr>)"
      and le2: "NextAddr ctx1 \<le> NextAddr ctx2"
      and rhsp: "(if S = From then RHS = E
           else (\<exists>G. field_for (InterStageRecords B ! stage_idx S) E = Some G \<and>
                   field_reference (Consumer (InterStageRecords B ! stage_idx S)) G E RHS))"
    by blast
  define X where "X = MkExpr (NextAddr ctx2) (getType E) (BinaryOperator BO_Assign P RHS)"
  define B2 where "B2 = B1\<lparr>Context := ctx2\<lparr>NextAddr := Suc (NextAddr ctx2)\<rparr>\<rparr>"
  have fresh: "\<forall>ES \<in> set (Stmts (StageStmts B2 ! stage_idx S)). stmt_addr ES \<noteq> expr_addr X"
  proof
    fix ES assume "ES \<in> set (Stmts (StageStmts B2 ! stage_idx S))"
    then have "ES \<in> set (Stmts (StageStmts B ! stage_idx S))" by (simp add: B2_def B1_def)
    from stmts_allocatedD[OF al _ this] iS len p(5) le2 show "stmt_addr ES \<noteq> expr_addr X"
      by (simp add: X_def)
  qed
  define L' where "L' = L\<lparr>Stmts := Stmts L @ [ExprStmt X],
                          StmtDeclRefCount := StmtDeclRefCount L @ [(1, None)]\<rparr>"
  define B3 where "B3 = B2\<lparr>StageStmts := (StageStmts B2)[stage_idx S := L']\<rparr>"
  have h1: "VisitExpr_hop E From S D B =
      (case rhsx of
                None \<Rightarrow> None
              | Some (None, B2) \<Rightarrow> None
              | Some (Some RHS, B2) \<Rightarrow>
                  (let (a, ctx3) = alloc (Context B2)
                   in addStageStmt
                        (ExprStmt (MkExpr a (getType E) (BinaryOperator BO_Assign P RHS)))
                        S None (B2\<lparr>Context := ctx3\<rparr>)))"
    unfolding VisitExpr_hop_def rhsx_def B1_def p(1)[unfolded R_def]
    by (simp add: Let_def)
  have h2: "VisitExpr_hop E From S D B = addStageStmt (ExprStmt X) S None B2"
    unfolding h1 rhs by (simp add: alloc_def X_def B2_def)
  have hop: "VisitExpr_hop E From S D B = Some B3"
    unfolding h2 addStageStmt_new_expr[OF S fresh]
    by (simp add: B3_def L'_def L_def B2_def B1_def)
  have B3_eq: "B3 = B\<lparr>InterStageRecords := (InterStageRecords B)[stage_idx D := R'],
                       Context := ctx2\<lparr>NextAddr := Suc (NextAddr ctx2)\<rparr>,
                       StageStmts := (StageStmts B)[stage_idx S := (StageStmts B ! stage_idx S)
                          \<lparr>Stmts := Stmts (StageStmts B ! stage_idx S) @ [ExprStmt X],
                           StmtDeclRefCount := StmtDeclRefCount L @ [(1, None)]\<rparr>]\<rparr>"
    by (simp add: B3_def B2_def B1_def L'_def L_def)
  have al3: "stmts_allocated B3"
    by (rule stmts_allocated_push[OF al, where X="ExprStmt X" and i="stage_idx S"
            and C="StmtDeclRefCount L @ [(1, None)]"])
       (use p(5) le2 iS len in \<open>simp_all add: B3_eq X_def\<close>)
  have hr: "hop_result E From (InterStageRecords B) (InterStageRecords B3)
             (StageStmts B) (StageStmts B3) (S, D)"
    using False p(2,4) rhsp ne iD iS len
    by (auto simp: hop_result_def B3_eq R_def X_def has_field_Fields)
  show ?thesis
    using hop hr al3 p(2,3) iD iS len
    by (auto simp: B3_eq has_field_Fields)
qed

lemma stage_int_NoStage: "0 \<le> stage_int A \<Longrightarrow> A \<noteq> HshNoStage"
  by (cases A) simp_all

lemma stage_idx_lt_neq: "0 \<le> stage_int A \<Longrightarrow> stage_int A < stage_int B \<Longrightarrow> stage_idx A \<noteq> stage_idx B"
  by (simp add: stage_idx_def)

lemma hop_pairs_fst: "(a, b) \<in> set (hop_pairs U S Ds) \<Longrightarrow> a = S \<or> a \<in> set Ds"
  by (induction Ds arbitrary: S) (auto split: if_splits)

lemma hop_pairs_snd: "(a, b) \<in> set (hop_pairs U S Ds) \<Longrightarrow> b \<in> set Ds \<and> stage_used U b"
  by (induction Ds arbitrary: S) (auto split: if_splits)

lemma hop_result_cong:
  "Rs ! stage_idx (snd hop) = Rs0 ! stage_idx (snd hop) \<Longrightarrow>
   Rs' ! stage_idx (snd hop) = Rs0' ! stage_idx (snd hop) \<Longrightarrow>
   Rs' ! stage_idx (fst hop) = Rs0' ! stage_idx (fst hop) \<Longrightarrow>
   Ls ! stage_idx (fst hop) = Ls0 ! stage_idx (fst hop) \<Longrightarrow>
   Ls' ! stage_idx (fst hop) = Ls0' ! stage_idx (fst hop) \<Longrightarrow>
   hop_result E From Rs Rs' Ls Ls' hop = hop_result E From Rs0 Rs0' Ls0 Ls0' hop"
  by (simp add: hop_result_def)

lemma VisitExpr_loop_result:
  assumes "sorted_wrt (\<lambda>a b. stage_int a < stage_int b) Ds"
    and "\<forall>D \<in> set Ds. stage_int S < stage_int D"
    and "0 \<le> stage_int S"
    and "length (InterStageRecords B) = 6" and "length (StageStmts B) = 6"
    and "\<forall>D \<in> set Ds. stage_used (UseStages B) D \<longrightarrow> record_ready (InterStageRecords B ! stage_idx D)"
    and "S \<noteq> From \<longrightarrow> record_ready (InterStageRecords B ! stage_idx S) \<and>
                          has_field (InterStageRecords B ! stage_idx S) E"
    and "stmts_allocated B"
  shows "\<exists>B'. VisitExpr_loop E From Ds S B = Some B' \<and>
     (\<forall>hop \<in> set (hop_pairs (UseStages B) S Ds).
         hop_result E From (InterStageRecords B) (InterStageRecords B')
           (StageStmts B) (StageStmts B') hop) \<and>
     (\<forall>i. i \<notin> stage_idx ` snd ` set (hop_pairs (UseStages B) S Ds)
            \<longrightarrow> InterStageRecords B' ! i = InterStageRecords B ! i) \<and>
     (\<forall>i. i \<notin> stage_idx ` fst ` set (hop_pairs (UseStages B) S Ds)
            \<longrightarrow> StageStmts B' ! i = StageStmts B ! i) \<and>
     length (InterStageRecords B') = 6 \<and> length (StageStmts B') = 6 \<and>
     stmts_allocated B' \<and> UseStages B' = UseStages B \<and>
     HostToStageRecords B' = HostToStageRecords B \<and>
     (\<forall>D \<in> set Ds. stage_used (UseStages B) D \<longrightarrow>
         record_ready (InterStageRecords B' ! stage_idx D) \<and>
         has_field (InterStageRecords B' ! stage_idx D) E)"
  using assms
proof (induction Ds arbitrary: S B)
  case Nil
  then show ?case by simp
next
  case (Cons D Ds)
  show ?case
  proof (cases "stage_used (UseStages B) D")
    case False
    from Cons.prems have
      "\<exists>B'. VisitExpr_loop E From Ds S B = Some B' \<and>
     (\<forall>hop \<in> set (hop_pairs (UseStages B) S Ds).
         hop_result E From (InterStageRecords B) (InterStageRecords B')
           (StageStmts B) (StageStmts B') hop) \<and>
     (\<forall>i. i \<notin> stage_idx ` snd ` set (hop_pairs (UseStages B) S Ds)
            \<longrightarrow> InterStageRecords B' ! i = InterStageRecords B ! i) \<and>
     (\<forall>i. i \<notin> stage_idx ` fst ` set (hop_pairs (UseStages B) S Ds)
            \<longrightarrow> StageStmts B' ! i = StageStmts B ! i) \<and>
     length (InterStageRecords B') = 6 \<and> length (StageStmts B') = 6 \<and>
     stmts_allocated B' \<and> UseStages B' = UseStages B \<and>
     HostToStageRecords B' = HostToStageRecords B \<and>
     (\<forall>D \<in> set Ds. stage_used (UseStages B) D \<longrightarrow>
         record_ready (InterStageRecords B' ! stage_idx D) \<and>
         has_field (InterStageRecords B' ! stage_idx D) E)"
      by (intro Cons.IH) simp_all
    with False show ?thesis by simp
  next
    case True
    have SD: "stage_int S < stage_int D" and S0: "0 \<le> stage_int S" and D0: "0 \<le> stage_int D"
      using Cons.prems(2,3) by auto
    have later: "\<forall>X \<in> set Ds. stage_int D < stage_int X"
      using Cons.prems(1) by simp
    have neS: "S \<noteq> HshNoStage" and neD: "D \<noteq> HshNoStage" and neSD: "S \<noteq> D"
      using SD S0 D0 by (auto simp: stage_int_NoStage)
    have rD: "record_ready (InterStageRecords B ! stage_idx D)"
      using Cons.prems(6) True by simp
    from VisitExpr_hop_result[OF neD neS neSD Cons.prems(4,5) rD _ Cons.prems(8), of From E]
      Cons.prems(7)
    obtain B1 where
      h: "VisitExpr_hop E From S D B = Some B1"
         "hop_result E From (InterStageRecords B) (InterStageRecords B1)
             (StageStmts B) (StageStmts B1) (S, D)"
         "\<And>i. i \<noteq> stage_idx D \<Longrightarrow> InterStageRecords B1 ! i = InterStageRecords B ! i"
         "\<And>i. i \<noteq> stage_idx S \<Longrightarrow> StageStmts B1 ! i = StageStmts B ! i"
         "length (InterStageRecords B1) = 6" "length (StageStmts B1) = 6"
         "record_ready (InterStageRecords B1 ! stage_idx D)"
         "has_field (InterStageRecords B1 ! stage_idx D) E"
         "stmts_allocated B1" "UseStages B1 = UseStages B"
         "HostToStageRecords B1 = HostToStageRecords B"
      by blast
    have idxD: "\<And>X. X \<in> set Ds \<Longrightarrow> stage_idx X \<noteq> stage_idx D"
      using later D0 stage_idx_lt_neq by metis
    have idxS: "\<And>X. X \<in> set Ds \<Longrightarrow> stage_idx X \<noteq> stage_idx S"
      using later SD S0 stage_idx_lt_neq by (metis order_less_trans)
    have idxSD: "stage_idx S \<noteq> stage_idx D"
      by (rule stage_idx_lt_neq[OF S0 SD])
    have ready1: "\<forall>X \<in> set Ds. stage_used (UseStages B1) X \<longrightarrow>
                     record_ready (InterStageRecords B1 ! stage_idx X)"
      using Cons.prems(6) h(3) h(10) idxD by simp
    from Cons.IH[OF _ later D0 h(5,6) ready1 _ h(9)] Cons.prems(1) h(7,8)
    obtain B' where
      r: "VisitExpr_loop E From Ds D B1 = Some B'"
         "\<And>hop. hop \<in> set (hop_pairs (UseStages B) D Ds) \<Longrightarrow>
            hop_result E From (InterStageRecords B1) (InterStageRecords B')
              (StageStmts B1) (StageStmts B') hop"
         "\<And>i. i \<notin> stage_idx ` snd ` set (hop_pairs (UseStages B) D Ds)
            \<Longrightarrow> InterStageRecords B' ! i = InterStageRecords B1 ! i"
         "\<And>i. i \<notin> stage_idx ` fst ` set (hop_pairs (UseStages B) D Ds)
            \<Longrightarrow> StageStmts B' ! i = StageStmts B1 ! i"
         "length (InterStageRecords B') = 6" "length (StageStmts B') = 6"
         "stmts_allocated B'" "UseStages B' = UseStages B"
         "HostToStageRecords B' = HostToStageRecords B"
         "\<And>X. X \<in> set Ds \<Longrightarrow> stage_used (UseStages B) X \<Longrightarrow>
             record_ready (InterStageRecords B' ! stage_idx X) \<and>
             has_field (InterStageRecords B' ! stage_idx X) E"
      unfolding h(10) h(11) by auto
    have nD: "stage_idx D \<notin> stage_idx ` snd ` set (hop_pairs (UseStages B) D Ds)"
      using hop_pairs_snd idxD by fastforce
    have nS: "stage_idx S \<notin> stage_idx ` snd ` set (hop_pairs (UseStages B) D Ds)"
      using hop_pairs_snd idxS by fastforce
    have nS': "stage_idx S \<notin> stage_idx ` fst ` set (hop_pairs (UseStages B) D Ds)"
    proof
      assume "stage_idx S \<in> stage_idx ` fst ` set (hop_pairs (UseStages B) D Ds)"
      then obtain a b where ab: "(a, b) \<in> set (hop_pairs (UseStages B) D Ds)"
        "stage_idx a = stage_idx S" by auto
      from hop_pairs_fst[OF ab(1)] idxS idxSD ab(2) show False by auto
    qed
    have first: "hop_result E From (InterStageRecords B) (InterStageRecords B')
                   (StageStmts B) (StageStmts B') (S, D)"
      using h(2) hop_result_cong[of "InterStageRecords B" "(S, D)" "InterStageRecords B"
              "InterStageRecords B'" "InterStageRecords B1" "StageStmts B" "StageStmts B"
              "StageStmts B'" "StageStmts B1" E From]
        r(3)[OF nD] r(3)[OF nS] r(4)[OF nS']
      by simp
    have rest: "hop_result E From (InterStageRecords B) (InterStageRecords B')
                   (StageStmts B) (StageStmts B') hop"
      if hop: "hop \<in> set (hop_pairs (UseStages B) D Ds)" for hop
    proof -
      obtain a b where ab: "hop = (a, b)" by (cases hop)
      from hop_pairs_snd[OF hop[unfolded ab]] idxD have b: "stage_idx b \<noteq> stage_idx D" by auto
      from hop_pairs_fst[OF hop[unfolded ab]] idxS idxSD have a: "stage_idx a \<noteq> stage_idx S"
        by auto
      from r(2)[OF hop] hop_result_cong[of "InterStageRecords B" hop "InterStageRecords B1"
              "InterStageRecords B'" "InterStageRecords B'" "StageStmts B" "StageStmts B1"
              "StageStmts B'" "StageStmts B'" E From] h(3)[OF b] h(4)[OF a]
      show ?thesis by (simp add: ab)
    qed
    have frameR: "InterStageRecords B' ! i = InterStageRecords B ! i"
      if "i \<notin> stage_idx ` snd ` set ((S, D) # hop_pairs (UseStages B) D Ds)" for i
      using that r(3)[of i] h(3)[of i] by auto
    have frameL: "StageStmts B' ! i = StageStmts B ! i"
      if "i \<notin> stage_idx ` fst ` set ((S, D) # hop_pairs (UseStages B) D Ds)" for i
      using that r(4)[of i] h(4)[of i] by auto
    have fin: "record_ready (InterStageRecords B' ! stage_idx X) \<and>
               has_field (InterStageRecords B' ! stage_idx X) E"
      if "X \<in> set (D # Ds)" "stage_used (UseStages B) X" for X
      using that r(10)[of X] r(3)[OF nD] h(7,8) by auto
    have loop: "VisitExpr_loop E From (D # Ds) S B = Some B'"
      using True h(1) r(1) by simp
    have hp: "hop_pairs (UseStages B) S (D # Ds) = (S, D) # hop_pairs (UseStages B) D Ds"
      using True by simp
    show ?thesis
      unfolding hp
      using loop first rest frameR frameL fin r(5-9)
      by (intro exI[of _ B']) (simp del: VisitExpr_loop.simps hop_pairs.simps)
  qed
qed

lemma stage_int_HshStage_of: "0 \<le> d \<Longrightarrow> d \<le> 5 \<Longrightarrow> stage_int (HshStage_of d) = d"
  by (auto simp: HshStage_of_def)

lemma HshStage_of_stage_int: "A \<noteq> HshNoStage \<Longrightarrow> HshStage_of (stage_int A) = A"
  by (cases A) (simp_all add: HshStage_of_def)

lemma stage_int_le: "stage_int A \<le> 5"
  by (cases A) simp_all

lemma stages_upto_mem:
  assumes "0 \<le> lo" and "hi \<le> 5"
  shows "D \<in> set (stages_upto lo hi) \<longleftrightarrow> lo \<le> stage_int D \<and> stage_int D \<le> hi"
proof
  assume "D \<in> set (stages_upto lo hi)"
  then obtain d where d: "D = HshStage_of d" "lo \<le> d" "d \<le> hi"
    by (auto simp: stages_upto_def)
  with assms show "lo \<le> stage_int D \<and> stage_int D \<le> hi"
    by (simp add: stage_int_HshStage_of)
next
  assume a: "lo \<le> stage_int D \<and> stage_int D \<le> hi"
  with assms have "D \<noteq> HshNoStage" by (auto simp: stage_int_NoStage)
  then have "D = HshStage_of (stage_int D)" by (simp add: HshStage_of_stage_int)
  with a show "D \<in> set (stages_upto lo hi)"
    unfolding stages_upto_def by (metis atLeastAtMost_iff imageI set_map set_upto)
qed

lemma stages_upto_sorted:
  assumes "0 \<le> lo" and "hi \<le> 5"
  shows "sorted_wrt (\<lambda>a b. stage_int a < stage_int b) (stages_upto lo hi)"
  unfolding stages_upto_def sorted_wrt_map
  by (rule sorted_wrt_mono_rel[OF _ sorted_wrt_upto]) (use assms in \<open>simp add: stage_int_HshStage_of\<close>)

lemma stmts_allocated_Context:
  "stmts_allocated B \<Longrightarrow> NextAddr (Context B) \<le> NextAddr ctx \<Longrightarrow>
     stmts_allocated (B\<lparr>Context := ctx\<rparr>)"
  by (fastforce simp: stmts_allocated_def)

lemma VisitExpr_inter_stage:
  assumes From: "0 < stage_int From" and lt: "stage_int From < stage_int To"
    and used: "stage_used (UseStages B) To"
    and ready: "builder_ready B"
  shows "\<exists>Ref B'. VisitExpr E From To B = Some (Ref, B') \<and>
     (\<exists>F. field_for (InterStageRecords B' ! stage_idx To) E = Some F \<and>
          field_reference (Consumer (InterStageRecords B' ! stage_idx To)) F E Ref) \<and>
     (\<forall>hop \<in> set (active_hops (UseStages B) From To).
         hop_result E From (InterStageRecords B) (InterStageRecords B')
           (StageStmts B) (StageStmts B') hop) \<and>
     (\<forall>i. i \<notin> stage_idx ` snd ` set (active_hops (UseStages B) From To)
            \<longrightarrow> InterStageRecords B' ! i = InterStageRecords B ! i) \<and>
     (\<forall>i. i \<notin> stage_idx ` fst ` set (active_hops (UseStages B) From To)
            \<longrightarrow> StageStmts B' ! i = StageStmts B ! i) \<and>
     HostToStageRecords B' = HostToStageRecords B \<and>
     UseStages B' = UseStages B \<and> builder_ready B'"
proof -
  define Ds where "Ds = stages_upto (stage_int From + 1) (stage_int To)"
  have lo: "0 \<le> stage_int From + 1" and hi: "stage_int To \<le> 5"
    using From by (simp_all add: stage_int_le)
  have neF: "From \<noteq> HshNoStage" "From \<noteq> HshHostStage" and neT: "To \<noteq> HshNoStage" "From \<noteq> To"
    using From lt by auto
  have hops: "active_hops (UseStages B) From To = hop_pairs (UseStages B) From Ds"
    using neF by (simp add: active_hops_def Ds_def)
  have mem: "\<And>D. D \<in> set Ds \<longleftrightarrow> stage_int From < stage_int D \<and> stage_int D \<le> stage_int To"
    unfolding Ds_def stages_upto_mem[OF lo hi] by auto
  have srt: "sorted_wrt (\<lambda>a b. stage_int a < stage_int b) Ds"
    unfolding Ds_def by (rule stages_upto_sorted[OF lo hi])
  have above: "\<forall>D \<in> set Ds. stage_int From < stage_int D"
    by (simp add: mem)
  have len: "length (InterStageRecords B) = 6" "length (StageStmts B) = 6"
    "length (HostToStageRecords B) = 6"
    and al: "stmts_allocated B"
    and rdy: "\<And>D. D \<in> set (stages_upto 2 5) \<Longrightarrow> stage_used (UseStages B) D \<Longrightarrow>
                 record_ready (InterStageRecords B ! stage_idx D)"
    and rdyH: "\<forall>D \<in> set (stages_upto 1 5). stage_used (UseStages B) D \<longrightarrow>
         record_ready (HostToStageRecords B ! stage_idx D)"
    using ready by (simp_all add: builder_ready_def)
  have in25: "D \<in> set (stages_upto 2 5)" if "D \<in> set Ds" for D
    using that From stage_int_le[of D] by (simp add: mem stages_upto_mem)
  have rd: "\<forall>D \<in> set Ds. stage_used (UseStages B) D \<longrightarrow>
              record_ready (InterStageRecords B ! stage_idx D)"
    using in25 rdy by blast
  have F0: "0 \<le> stage_int From" using From by simp
  from VisitExpr_loop_result[OF srt above F0 len(1,2) rd _ al, of From E]
  obtain B1 where
    r: "VisitExpr_loop E From Ds From B = Some B1"
       "\<And>hop. hop \<in> set (hop_pairs (UseStages B) From Ds) \<Longrightarrow>
         hop_result E From (InterStageRecords B) (InterStageRecords B1)
           (StageStmts B) (StageStmts B1) hop"
       "\<And>i. i \<notin> stage_idx ` snd ` set (hop_pairs (UseStages B) From Ds)
            \<Longrightarrow> InterStageRecords B1 ! i = InterStageRecords B ! i"
       "\<And>i. i \<notin> stage_idx ` fst ` set (hop_pairs (UseStages B) From Ds)
            \<Longrightarrow> StageStmts B1 ! i = StageStmts B ! i"
       "length (InterStageRecords B1) = 6" "length (StageStmts B1) = 6"
       "stmts_allocated B1" "UseStages B1 = UseStages B"
       "HostToStageRecords B1 = HostToStageRecords B"
       "\<And>D. D \<in> set Ds \<Longrightarrow> stage_used (UseStages B) D \<Longrightarrow>
         record_ready (InterStageRecords B1 ! stage_idx D) \<and>
         has_field (InterStageRecords B1 ! stage_idx D) E"
    by auto
  have ToDs: "To \<in> set Ds" using lt by (simp add: mem)
  from r(10)[OF ToDs used] have t: "record_ready (InterStageRecords B1 ! stage_idx To)"
    "has_field (InterStageRecords B1 ! stage_idx To) E" by simp_all
  from createConsumerFieldReference_existing[OF t(2,1), of "Context B1"]
  obtain G X ctx' where
    c: "createConsumerFieldReference E (InterStageRecords B1 ! stage_idx To) (Context B1)
          = Some (Some X, InterStageRecords B1 ! stage_idx To, ctx')"
       "field_for (InterStageRecords B1 ! stage_idx To) E = Some G"
       "field_reference (Consumer (InterStageRecords B1 ! stage_idx To)) G E X"
       "NextAddr (Context B1) \<le> NextAddr ctx'"
    by blast
  define B' where "B' = B1\<lparr>Context := ctx'\<rparr>"
  have v: "VisitExpr E From To B = Some (X, B')"
    using neF neT r(1) c(1)
    by (simp add: VisitExpr_def Ds_def[symmetric] B'_def)
  have al': "stmts_allocated B'"
    unfolding B'_def by (rule stmts_allocated_Context[OF r(7) c(4)])
  have rdy': "record_ready (InterStageRecords B1 ! stage_idx D)"
    if D: "D \<in> set (stages_upto 2 5)" "stage_used (UseStages B) D" for D
  proof (cases "stage_idx D \<in> stage_idx ` snd ` set (hop_pairs (UseStages B) From Ds)")
    case False
    from r(3)[OF False] rdy[OF D] show ?thesis by simp
  next
    case True
    then obtain a b where ab: "(a, b) \<in> set (hop_pairs (UseStages B) From Ds)"
      "stage_idx D = stage_idx b" by auto
    from hop_pairs_snd[OF ab(1)] have b: "b \<in> set Ds" "stage_used (UseStages B) b" by simp_all
    from r(10)[OF b] show ?thesis by (simp add: ab(2))
  qed
  have br: "builder_ready B'"
    using al' rdy' rdyH r(5,6,8,9) len(3)
    by (simp add: builder_ready_def B'_def)
  show ?thesis
    unfolding hops
    using v c(2,3) r(2,3,4,8,9) br
    by (intro exI[of _ X] exI[of _ B']) (simp add: B'_def)
qed

lemma VisitExpr_host:
  assumes To: "0 < stage_int To"
    and used: "stage_used (UseStages B) To"
    and ready: "builder_ready B"
  shows "\<exists>Ref B'. VisitExpr E HshHostStage To B = Some (Ref, B') \<and>
     (\<exists>F. field_for (HostToStageRecords B' ! stage_idx To) E = Some F \<and>
          field_reference (Consumer (HostToStageRecords B' ! stage_idx To)) F E Ref) \<and>
     hop_result E HshHostStage (HostToStageRecords B) (HostToStageRecords B')
           (StageStmts B) (StageStmts B') (HshHostStage, To) \<and>
     (\<forall>i. i \<noteq> stage_idx To \<longrightarrow> HostToStageRecords B' ! i = HostToStageRecords B ! i) \<and>
     (\<forall>i. i \<noteq> stage_idx HshHostStage \<longrightarrow> StageStmts B' ! i = StageStmts B ! i) \<and>
     InterStageRecords B' = InterStageRecords B \<and>
     UseStages B' = UseStages B \<and> builder_ready B'"
proof -
  define R where "R = HostToStageRecords B ! stage_idx To"
  have neT: "To \<noteq> HshNoStage" "To \<noteq> HshHostStage" "HshHostStage \<noteq> To"
    using To by auto
  have iT: "stage_idx To < 6" "stage_idx To \<noteq> 0" "stage_idx HshHostStage = 0"
    using To stage_idx_less[OF neT(1)] by (simp_all add: stage_idx_def)
  have len: "length (InterStageRecords B) = 6" "length (StageStmts B) = 6"
    "length (HostToStageRecords B) = 6"
    and al: "stmts_allocated B"
    and rdyI: "\<forall>D \<in> set (stages_upto 2 5). stage_used (UseStages B) D \<longrightarrow>
         record_ready (InterStageRecords B ! stage_idx D)"
    and rdyH: "\<And>D. D \<in> set (stages_upto 1 5) \<Longrightarrow> stage_used (UseStages B) D \<Longrightarrow>
         record_ready (HostToStageRecords B ! stage_idx D)"
    using ready by (simp_all add: builder_ready_def)
  have "To \<in> set (stages_upto 1 5)"
    using To stage_int_le[of To] by (simp add: stages_upto_mem)
  from rdyH[OF this used] have rR: "record_ready R" by (simp add: R_def)
  show ?thesis
  proof (cases "has_field R E")
    case True
    from createConsumerFieldReference_existing[OF True rR, of "Context B"]
    obtain G X ctx' where
      c: "createConsumerFieldReference E R (Context B) = Some (Some X, R, ctx')"
         "field_for R E = Some G" "field_reference (Consumer R) G E X"
         "NextAddr (Context B) \<le> NextAddr ctx'"
      by blast
    define B' where "B' = B\<lparr>Context := ctx'\<rparr>"
    have upd: "(HostToStageRecords B)[stage_idx To := R] = HostToStageRecords B"
      unfolding R_def by (rule list_update_id)
    have v: "VisitExpr E HshHostStage To B = Some (X, B')"
      using neT c(1)
      by (simp add: VisitExpr_def createProducerFieldReference_existing[OF True, folded R_def]
            R_def[symmetric] upd B'_def)
    have br: "builder_ready B'"
      using ready stmts_allocated_Context[OF al c(4)]
      by (simp add: builder_ready_def B'_def)
    have hr: "hop_result E HshHostStage (HostToStageRecords B) (HostToStageRecords B')
           (StageStmts B) (StageStmts B') (HshHostStage, To)"
      using True by (simp add: hop_resultI_existing R_def B'_def)
    show ?thesis
      using v c(2,3) hr br
      by (intro exI[of _ X] exI[of _ B']) (simp add: B'_def R_def)
  next
    case False
    from createProducerFieldReference_new[OF False rR, of "Context B"]
    obtain F P R' ctx1 where
      p: "createProducerFieldReference E R (Context B) = Some (Some P, R', ctx1)"
         "Fields R' = Fields R @ [(E, F)]" "record_ready R'"
         "field_reference (Producer R') F E P" "NextAddr (Context B) \<le> NextAddr ctx1"
      by blast
    define X where "X = MkExpr (NextAddr ctx1) (getType E) (BinaryOperator BO_Assign P E)"
    define B2 where "B2 = B\<lparr>HostToStageRecords := (HostToStageRecords B)[stage_idx To := R'],
                            Context := ctx1\<lparr>NextAddr := Suc (NextAddr ctx1)\<rparr>\<rparr>"
    define L where "L = StageStmts B ! stage_idx HshHostStage"
    define B3 where "B3 = B2\<lparr>StageStmts := (StageStmts B2)[stage_idx HshHostStage :=
                         L\<lparr>Stmts := Stmts L @ [ExprStmt X],
                           StmtDeclRefCount := StmtDeclRefCount L @ [(1, None)]\<rparr>]\<rparr>"
    have fresh: "\<forall>ES \<in> set (Stmts (StageStmts B2 ! stage_idx HshHostStage)).
                    stmt_addr ES \<noteq> expr_addr X"
    proof
      fix ES assume "ES \<in> set (Stmts (StageStmts B2 ! stage_idx HshHostStage))"
      then have "ES \<in> set (Stmts (StageStmts B ! stage_idx HshHostStage))"
        by (simp add: B2_def)
      from stmts_allocatedD[OF al _ this] iT len p(5) show "stmt_addr ES \<noteq> expr_addr X"
        by (simp add: X_def)
    qed
    have add: "addStageStmt (ExprStmt X) HshHostStage None B2 = Some B3"
      unfolding addStageStmt_new_expr[OF _ fresh, simplified]
      by (simp add: B3_def L_def B2_def)
    have hf: "has_field R' E" by (rule has_field_Fields[OF p(2)])
    from createConsumerFieldReference_existing[OF hf p(3), of "Context B3"]
    obtain G Y ctx' where
      c: "createConsumerFieldReference E R' (Context B3) = Some (Some Y, R', ctx')"
         "field_for R' E = Some G" "field_reference (Consumer R') G E Y"
         "NextAddr (Context B3) \<le> NextAddr ctx'"
      by blast
    define B' where "B' = B3\<lparr>Context := ctx'\<rparr>"
    have H3: "HostToStageRecords B3 = (HostToStageRecords B)[stage_idx To := R']"
      by (simp add: B3_def B2_def)
    have H3T: "HostToStageRecords B3 ! stage_idx To = R'"
      using iT len by (simp add: H3)
    have upd: "(HostToStageRecords B3)[stage_idx To := R'] = HostToStageRecords B3"
      by (simp add: H3)
    have step1: "(case createProducerFieldReference E
                      (HostToStageRecords B ! stage_idx To) (Context B) of
                 None \<Rightarrow> None
               | Some (None, R, ctx1) \<Rightarrow>
                   Some (B\<lparr>HostToStageRecords := (HostToStageRecords B)[stage_idx To := R],
                           Context := ctx1\<rparr>)
               | Some (Some ProducerRef, R, ctx1) \<Rightarrow>
                   (let (a, ctx2) = alloc ctx1
                    in addStageStmt
                         (ExprStmt (MkExpr a (getType E) (BinaryOperator BO_Assign ProducerRef E)))
                         HshHostStage None
                         (B\<lparr>HostToStageRecords := (HostToStageRecords B)[stage_idx To := R],
                            Context := ctx2\<rparr>))) = Some B3"
      unfolding p(1)[unfolded R_def] add[symmetric]
      by (simp add: alloc_def X_def B2_def)
    have v: "VisitExpr E HshHostStage To B = Some (Y, B')"
      unfolding VisitExpr_def using neT
      by (simp add: step1 H3T c(1) upd B'_def del: list_update_overwrite)
    have al3: "stmts_allocated B3"
      by (rule stmts_allocated_push[OF al, where X="ExprStmt X" and i="stage_idx HshHostStage"
              and C="StmtDeclRefCount L @ [(1, None)]"])
        (use p(5) iT len in \<open>simp_all add: B3_def B2_def X_def L_def\<close>)
    have al': "stmts_allocated B'"
      unfolding B'_def by (rule stmts_allocated_Context[OF al3 c(4)])
    have rdyH': "record_ready (HostToStageRecords B3 ! stage_idx D)"
      if D: "D \<in> set (stages_upto 1 5)" "stage_used (UseStages B) D" for D
      using rdyH[OF D] p(3) iT len
      by (cases "stage_idx D = stage_idx To") (simp_all add: H3)
    have br: "builder_ready B'"
      using al' rdyH' rdyI len
      by (simp add: builder_ready_def B'_def) (simp add: B3_def B2_def)
    have hr: "hop_result E HshHostStage (HostToStageRecords B) (HostToStageRecords B')
           (StageStmts B) (StageStmts B') (HshHostStage, To)"
      using False p(2,4) hf iT len
      by (auto simp: hop_result_def B'_def B3_def B2_def R_def X_def L_def)
    show ?thesis
      using v c(2,3) hr br iT len
      by (intro exI[of _ Y] exI[of _ B']) (simp add: B'_def H3T, simp add: B3_def B2_def)
  qed
qed

lemma stages_upto_1_5:
  "stages_upto 1 5 = [HshVertexStage, HshControlStage, HshEvaluationStage, HshGeometryStage, HshFragmentStage]"
  "stages_upto 2 5 = [HshControlStage, HshEvaluationStage, HshGeometryStage, HshFragmentStage]"
  by (simp_all add: stages_upto_def HshStage_of_def upto.simps)

lemma StagesBuilder_new_50:
  "builder_ready (StagesBuilder_new \<lparr>Diags = [], NextAddr = 100\<rparr> 50)"
  "Fields (InterStageRecords (StagesBuilder_new \<lparr>Diags = [], NextAddr = 100\<rparr> 50) ! 4) = []"
  "Fields (InterStageRecords (StagesBuilder_new \<lparr>Diags = [], NextAddr = 100\<rparr> 50) ! 5) = []"
  "Fields (HostToStageRecords (StagesBuilder_new \<lparr>Diags = [], NextAddr = 100\<rparr> 50) ! 5) = []"
  "UseStages (StagesBuilder_new \<lparr>Diags = [], NextAddr = 100\<rparr> 50) = 50"
  by (simp_all add: builder_ready_def StagesBuilder_new_def stages_upto_1_5 stage_used_def
        stage_bit_def stage_idx_def initializeRecord_def alloc_def InterfaceRecord_default_def
        record_ready_def stmts_allocated_def Let_def)

lemma active_hops_50:
  "active_hops 50 HshVertexStage HshFragmentStage
     = [(HshVertexStage, HshGeometryStage), (HshGeometryStage, HshFragmentStage)]"
  "stage_used 50 HshFragmentStage"
  by (simp_all add: active_hops_def stages_upto_1_5 stages_upto_def HshStage_of_def upto.simps
        stage_used_def stage_bit_def)

text \<open>
  Claim C1 does not hold for every request. \<open>VisitExpr\<close> appends an assignment only when
  the producer reference is created, which \<open>createProducerFieldReference\<close> does only for
  a record that holds no field for the expression yet. With the vertex, geometry and
  fragment stages in use, a second \<open>VisitExpr\<close> of the same vertex-stage expression for
  the fragment stage returns a consumer-field read again, but no statement list and no
  record changes: nothing is appended for the pairs vertex-geometry and
  geometry-fragment.
\<close>

theorem VisitExpr_counterexample:
  "let f4 = QualType (HBT_Vector float4) False 0 False None;
       E = MkExpr 1 f4 (DeclRefExpr (ParmVar (ParmVarDecl 1 ''u'' f4 [])));
       B = StagesBuilder_new \<lparr>Diags = [], NextAddr = 100\<rparr> 50
   in \<exists>Ref1 B1 Ref2 B2.
        VisitExpr E HshVertexStage HshFragmentStage B = Some (Ref1, B1) \<and>
        VisitExpr E HshVertexStage HshFragmentStage B1 = Some (Ref2, B2) \<and>
        active_hops (UseStages B1) HshVertexStage HshFragmentStage
          = [(HshVertexStage, HshGeometryStage), (HshGeometryStage, HshFragmentStage)] \<and>
        StageStmts B2 = StageStmts B1 \<and> InterStageRecords B2 = InterStageRecords B1"
proof -
  define f4 where "f4 = QualType (HBT_Vector float4) False 0 False None"
  define E where "E = MkExpr 1 f4 (DeclRefExpr (ParmVar (ParmVarDecl 1 ''u'' f4 [])))"
  define B where "B = StagesBuilder_new \<lparr>Diags = [], NextAddr = 100\<rparr> 50"
  have b: "builder_ready B" "UseStages B = 50"
    unfolding B_def by (rule StagesBuilder_new_50)+
  have u: "stage_used (UseStages B) HshFragmentStage"
    unfolding b(2) by (rule active_hops_50)
  from VisitExpr_inter_stage[OF _ _ u b(1), of HshVertexStage E]
  obtain Ref1 B1 where
    r1: "VisitExpr E HshVertexStage HshFragmentStage B = Some (Ref1, B1)"
        "\<And>hop. hop \<in> set (active_hops (UseStages B) HshVertexStage HshFragmentStage) \<Longrightarrow>
           hop_result E HshVertexStage (InterStageRecords B) (InterStageRecords B1)
             (StageStmts B) (StageStmts B1) hop"
        "UseStages B1 = UseStages B" "builder_ready B1"
    by auto
  have hf: "has_field (InterStageRecords B1 ! stage_idx HshGeometryStage) E"
    "has_field (InterStageRecords B1 ! stage_idx HshFragmentStage) E"
    using r1(2)[of "(HshVertexStage, HshGeometryStage)"]
      r1(2)[of "(HshGeometryStage, HshFragmentStage)"]
    by (simp_all add: b(2) active_hops_50 hop_result_def Let_def)
  have u1: "stage_used (UseStages B1) HshFragmentStage"
    unfolding r1(3) by (rule u)
  have h1: "active_hops (UseStages B1) HshVertexStage HshFragmentStage
          = [(HshVertexStage, HshGeometryStage), (HshGeometryStage, HshFragmentStage)]"
    unfolding r1(3) b(2) by (rule active_hops_50)
  from VisitExpr_inter_stage[OF _ _ u1 r1(4), of HshVertexStage E]
  obtain Ref2 B2 where
    r2: "VisitExpr E HshVertexStage HshFragmentStage B1 = Some (Ref2, B2)"
        "\<And>hop. hop \<in> set (active_hops (UseStages B1) HshVertexStage HshFragmentStage) \<Longrightarrow>
           hop_result E HshVertexStage (InterStageRecords B1) (InterStageRecords B2)
             (StageStmts B1) (StageStmts B2) hop"
        "\<And>i. i \<notin> stage_idx ` snd ` set (active_hops (UseStages B1) HshVertexStage HshFragmentStage)
            \<Longrightarrow> InterStageRecords B2 ! i = InterStageRecords B1 ! i"
        "\<And>i. i \<notin> stage_idx ` fst ` set (active_hops (UseStages B1) HshVertexStage HshFragmentStage)
            \<Longrightarrow> StageStmts B2 ! i = StageStmts B1 ! i"
        "builder_ready B2"
    by auto
  have same: "InterStageRecords B2 ! stage_idx HshGeometryStage
                = InterStageRecords B1 ! stage_idx HshGeometryStage"
    "InterStageRecords B2 ! stage_idx HshFragmentStage
                = InterStageRecords B1 ! stage_idx HshFragmentStage"
    "StageStmts B2 ! stage_idx HshVertexStage = StageStmts B1 ! stage_idx HshVertexStage"
    "StageStmts B2 ! stage_idx HshGeometryStage = StageStmts B1 ! stage_idx HshGeometryStage"
    using r2(2)[of "(HshVertexStage, HshGeometryStage)"]
      r2(2)[of "(HshGeometryStage, HshFragmentStage)"] hf
    by (simp_all add: h1 hop_result_def Let_def)
  have len: "length (StageStmts B2) = length (StageStmts B1)"
    "length (InterStageRecords B2) = length (InterStageRecords B1)"
    using r1(4) r2(5) by (simp_all add: builder_ready_def)
  have ss: "StageStmts B2 = StageStmts B1"
  proof (rule nth_equalityI[OF len(1)])
    fix i
    show "StageStmts B2 ! i = StageStmts B1 ! i"
      using r2(4)[of i] same(3,4) by (auto simp: h1)
  qed
  have rr: "InterStageRecords B2 = InterStageRecords B1"
  proof (rule nth_equalityI[OF len(2)])
    fix i
    show "InterStageRecords B2 ! i = InterStageRecords B1 ! i"
      using r2(3)[of i] same(1,2) by (auto simp: h1)
  qed
  from r1(1) r2(1) h1 ss rr have "\<exists>Ref1 B1 Ref2 B2.
        VisitExpr E HshVertexStage HshFragmentStage B = Some (Ref1, B1) \<and>
        VisitExpr E HshVertexStage HshFragmentStage B1 = Some (Ref2, B2) \<and>
        active_hops (UseStages B1) HshVertexStage HshFragmentStage
          = [(HshVertexStage, HshGeometryStage), (HshGeometryStage, HshFragmentStage)] \<and>
        StageStmts B2 = StageStmts B1 \<and> InterStageRecords B2 = InterStageRecords B1"
    by blast
  then show ?thesis
    unfolding Let_def E_def f4_def B_def .
qed

text \<open>
  Claim C1, as the code has it. Let \<open>E\<close> be computed at stage \<open>From\<close> (not the no-stage
  value) and consumed at a strictly later stage \<open>To\<close> that is in use, on a builder whose
  tables are as the constructor leaves them. Then \<open>VisitExpr\<close> returns, and what it
  returns is a read of the consumer field of \<open>E\<close> in the record of \<open>To\<close>, never \<open>E\<close>
  itself. For each pair \<open>(S, D)\<close> of consecutive used stages on the way from \<open>From\<close> to
  \<open>To\<close>, the record of \<open>D\<close> holds a field for \<open>E\<close> afterwards; if it held none before, the
  field is new and one assignment has been appended to the statements of \<open>S\<close>, copying
  \<open>E\<close> (when \<open>S\<close> is \<open>From\<close>) or the consumer field of \<open>E\<close> in the record of \<open>S\<close> into the
  producer reference of the new field; if it held one already, neither the record nor
  the statements of \<open>S\<close> change. Records and statement lists outside those pairs are
  untouched. A value of the host has the single pair of the host and \<open>To\<close>, in the
  host-to-stage records, and the inter-stage records stay as they were; for any other
  value the host-to-stage records stay as they were. The builder is left in a state on
  which the same holds again.
\<close>

theorem VisitExpr_interface_chain:
  assumes From: "From \<noteq> HshNoStage"
    and later: "stage_int From < stage_int To"
    and used: "stage_used (UseStages B) To"
    and ready: "builder_ready B"
  shows "\<exists>Ref B'. VisitExpr E From To B = Some (Ref, B') \<and>
     (let Rs = (if From = HshHostStage then HostToStageRecords B else InterStageRecords B);
          Rs' = (if From = HshHostStage then HostToStageRecords B' else InterStageRecords B');
          hops = active_hops (UseStages B) From To
      in (\<exists>F. field_for (Rs' ! stage_idx To) E = Some F \<and>
               field_reference (Consumer (Rs' ! stage_idx To)) F E Ref) \<and>
         (\<forall>hop \<in> set hops. hop_result E From Rs Rs' (StageStmts B) (StageStmts B') hop) \<and>
         (\<forall>i. i \<notin> stage_idx ` snd ` set hops \<longrightarrow> Rs' ! i = Rs ! i) \<and>
         (\<forall>i. i \<notin> stage_idx ` fst ` set hops \<longrightarrow> StageStmts B' ! i = StageStmts B ! i) \<and>
         (if From = HshHostStage then InterStageRecords B' = InterStageRecords B
          else HostToStageRecords B' = HostToStageRecords B)) \<and>
     builder_ready B'"
proof (cases "From = HshHostStage")
  case True
  with later have To: "0 < stage_int To" by simp
  from VisitExpr_host[OF To used ready, of E]
  obtain Ref B' where
    r: "VisitExpr E HshHostStage To B = Some (Ref, B')"
     "\<exists>F. field_for (HostToStageRecords B' ! stage_idx To) E = Some F \<and>
          field_reference (Consumer (HostToStageRecords B' ! stage_idx To)) F E Ref"
     "hop_result E HshHostStage (HostToStageRecords B) (HostToStageRecords B')
           (StageStmts B) (StageStmts B') (HshHostStage, To)"
     "\<And>i. i \<noteq> stage_idx To \<Longrightarrow> HostToStageRecords B' ! i = HostToStageRecords B ! i"
     "\<And>i. i \<noteq> stage_idx HshHostStage \<Longrightarrow> StageStmts B' ! i = StageStmts B ! i"
     "InterStageRecords B' = InterStageRecords B" "builder_ready B'"
    by blast
  show ?thesis
    using True r
    by (intro exI[of _ Ref] exI[of _ B']) (simp add: active_hops_def Let_def)
next
  case False
  with From have F0: "0 < stage_int From" by (cases From) simp_all
  from VisitExpr_inter_stage[OF F0 later used ready, of E]
  obtain Ref B' where
    r: "VisitExpr E From To B = Some (Ref, B')"
     "\<exists>F. field_for (InterStageRecords B' ! stage_idx To) E = Some F \<and>
          field_reference (Consumer (InterStageRecords B' ! stage_idx To)) F E Ref"
     "\<forall>hop \<in> set (active_hops (UseStages B) From To).
         hop_result E From (InterStageRecords B) (InterStageRecords B')
           (StageStmts B) (StageStmts B') hop"
     "\<forall>i. i \<notin> stage_idx ` snd ` set (active_hops (UseStages B) From To)
            \<longrightarrow> InterStageRecords B' ! i = InterStageRecords B ! i"
     "\<forall>i. i \<notin> stage_idx ` fst ` set (active_hops (UseStages B) From To)
            \<longrightarrow> StageStmts B' ! i = StageStmts B ! i"
     "HostToStageRecords B' = HostToStageRecords B" "builder_ready B'"
    by blast
  show ?thesis
    using False r
    by (intro exI[of _ Ref] exI[of _ B']) (simp add: Let_def)
qed

theorem VisitExpr_interface_chain_witness:
  "let f4 = QualType (HBT_Vector float4) False 0 False None;
       E = MkExpr 1 f4 (DeclRefExpr (ParmVar (ParmVarDecl 1 ''u'' f4 [])));
       B = StagesBuilder_new \<lparr>Diags = [], NextAddr = 100\<rparr> 50
   in builder_ready B \<and> stage_used (UseStages B) HshFragmentStage \<and>
      active_hops (UseStages B) HshVertexStage HshFragmentStage
          = [(HshVertexStage, HshGeometryStage), (HshGeometryStage, HshFragmentStage)] \<and>
      (\<exists>Ref B'. VisitExpr E HshVertexStage HshFragmentStage B = Some (Ref, B') \<and>
          hop_result E HshVertexStage (InterStageRecords B) (InterStageRecords B')
            (StageStmts B) (StageStmts B') (HshVertexStage, HshGeometryStage) \<and>
          hop_result E HshVertexStage (InterStageRecords B) (InterStageRecords B')
            (StageStmts B) (StageStmts B') (HshGeometryStage, HshFragmentStage) \<and>
          length (Stmts (StageStmts B' ! 1)) = 1 \<and>
          length (Stmts (StageStmts B' ! 4)) = 1 \<and>
          StageStmts B' ! 5 = StageStmts B ! 5 \<and>
          length (Fields (InterStageRecords B' ! 4)) = 1 \<and>
          length (Fields (InterStageRecords B' ! 5)) = 1 \<and>
          Ref \<noteq> E \<and>
          HostToStageRecords B' = HostToStageRecords B) \<and>
      (\<exists>Ref B'. VisitExpr E HshHostStage HshFragmentStage B = Some (Ref, B') \<and>
          hop_result E HshHostStage (HostToStageRecords B) (HostToStageRecords B')
            (StageStmts B) (StageStmts B') (HshHostStage, HshFragmentStage) \<and>
          length (Stmts (StageStmts B' ! 0)) = 1 \<and>
          length (Fields (HostToStageRecords B' ! 5)) = 1 \<and>
          InterStageRecords B' = InterStageRecords B)"
proof -
  define f4 where "f4 = QualType (HBT_Vector float4) False 0 False None"
  define E where "E = MkExpr 1 f4 (DeclRefExpr (ParmVar (ParmVarDecl 1 ''u'' f4 [])))"
  define B where "B = StagesBuilder_new \<lparr>Diags = [], NextAddr = 100\<rparr> 50"
  have b: "builder_ready B"
    "Fields (InterStageRecords B ! 4) = []" "Fields (InterStageRecords B ! 5) = []"
    "Fields (HostToStageRecords B ! 5) = []" "UseStages B = 50"
    unfolding B_def by (rule StagesBuilder_new_50)+
  have st: "Stmts (StageStmts B ! 0) = []" "Stmts (StageStmts B ! 1) = []"
    "Stmts (StageStmts B ! 4) = []"
    by (simp_all add: B_def StagesBuilder_new_tables)
  have st1: "Stmts (StageStmts B ! Suc 0) = []"
    using st(2) by simp
  have u: "stage_used (UseStages B) HshFragmentStage"
    unfolding b(5) by (rule active_hops_50)
  have h: "active_hops (UseStages B) HshVertexStage HshFragmentStage
          = [(HshVertexStage, HshGeometryStage), (HshGeometryStage, HshFragmentStage)]"
    unfolding b(5) by (rule active_hops_50)
  have hh: "active_hops (UseStages B) HshHostStage HshFragmentStage
          = [(HshHostStage, HshFragmentStage)]"
    by (simp add: active_hops_def)
  have nf: "\<not> has_field (InterStageRecords B ! 4) E" "\<not> has_field (InterStageRecords B ! 5) E"
    "\<not> has_field (HostToStageRecords B ! 5) E"
    by (simp_all add: has_field_def b)
  have ix: "stage_idx HshHostStage = 0" "stage_idx HshVertexStage = 1"
    "stage_idx HshGeometryStage = 4" "stage_idx HshFragmentStage = 5"
    by (simp_all add: stage_idx_def)
  from VisitExpr_interface_chain[OF _ _ u b(1), of HshVertexStage E]
  obtain Ref B' where
    r: "VisitExpr E HshVertexStage HshFragmentStage B = Some (Ref, B')"
       "\<exists>F. field_reference (Consumer (InterStageRecords B' ! 5)) F E Ref"
       "hop_result E HshVertexStage (InterStageRecords B) (InterStageRecords B')
            (StageStmts B) (StageStmts B') (HshVertexStage, HshGeometryStage)"
       "hop_result E HshVertexStage (InterStageRecords B) (InterStageRecords B')
            (StageStmts B) (StageStmts B') (HshGeometryStage, HshFragmentStage)"
       "\<And>i. i \<noteq> 1 \<Longrightarrow> i \<noteq> 4 \<Longrightarrow> StageStmts B' ! i = StageStmts B ! i"
       "HostToStageRecords B' = HostToStageRecords B"
    by (auto simp: h ix Let_def)
  have r1: "length (Stmts (StageStmts B' ! 1)) = 1" "length (Fields (InterStageRecords B' ! 4)) = 1"
    using r(3) nf(1) by (auto simp: hop_result_def Let_def ix st st1 b)
  have r2: "length (Stmts (StageStmts B' ! 4)) = 1" "length (Fields (InterStageRecords B' ! 5)) = 1"
    using r(4) nf(2) by (auto simp: hop_result_def Let_def ix st st1 b)
  have r3: "Ref \<noteq> E"
    using r(2) by (auto simp: field_reference_def E_def)
  from VisitExpr_interface_chain[OF _ _ u b(1), of HshHostStage E]
  obtain RefH BH where
    q: "VisitExpr E HshHostStage HshFragmentStage B = Some (RefH, BH)"
       "hop_result E HshHostStage (HostToStageRecords B) (HostToStageRecords BH)
            (StageStmts B) (StageStmts BH) (HshHostStage, HshFragmentStage)"
       "InterStageRecords BH = InterStageRecords B"
    by (auto simp: hh ix Let_def)
  have q1: "length (Stmts (StageStmts BH ! 0)) = 1" "length (Fields (HostToStageRecords BH ! 5)) = 1"
    using q(2) nf(3) by (auto simp: hop_result_def Let_def ix st st1 b)
  from b(1) u h r(1,3,4) r1 r2 r(5)[of 5] r3 r(6) q q1
  have "builder_ready B \<and> stage_used (UseStages B) HshFragmentStage \<and>
      active_hops (UseStages B) HshVertexStage HshFragmentStage
          = [(HshVertexStage, HshGeometryStage), (HshGeometryStage, HshFragmentStage)] \<and>
      (\<exists>Ref B'. VisitExpr E HshVertexStage HshFragmentStage B = Some (Ref, B') \<and>
          hop_result E HshVertexStage (InterStageRecords B) (InterStageRecords B')
            (StageStmts B) (StageStmts B') (HshVertexStage, HshGeometryStage) \<and>
          hop_result E HshVertexStage (InterStageRecords B) (InterStageRecords B')
            (StageStmts B) (StageStmts B') (HshGeometryStage, HshFragmentStage) \<and>
          length (Stmts (StageStmts B' ! 1)) = 1 \<and>
          length (Stmts (StageStmts B' ! 4)) = 1 \<and>
          StageStmts B' ! 5 = StageStmts B ! 5 \<and>
          length (Fields (InterStageRecords B' ! 4)) = 1 \<and>
          length (Fields (InterStageRecords B' ! 5)) = 1 \<and>
          Ref \<noteq> E \<and>
          HostToStageRecords B' = HostToStageRecords B) \<and>
      (\<exists>Ref B'. VisitExpr E HshHostStage HshFragmentStage B = Some (Ref, B') \<and>
          hop_result E HshHostStage (HostToStageRecords B) (HostToStageRecords B')
            (StageStmts B) (StageStmts B') (HshHostStage, HshFragmentStage) \<and>
          length (Stmts (StageStmts B' ! 0)) = 1 \<and>
          length (Fields (HostToStageRecords B' ! 5)) = 1 \<and>
          InterStageRecords B' = InterStageRecords B)"
    by simp
  then show ?thesis
    unfolding Let_def E_def f4_def B_def .
qed

end
